theory Spec2Isabelle
  imports Main "HOL-Library.AList"
begin

section \<open>Errors\<close>

text \<open>
  A JavaScript exception is a value. \<open>Error m\<close> is \<^verbatim>\<open>new Error(m)\<close>;
  \<open>TypeError m\<close> is what a property read on \<^verbatim>\<open>null\<close> or \<^verbatim>\<open>undefined\<close> throws;
  \<open>SyntaxError m\<close> is what \<^verbatim>\<open>JSON.parse\<close> throws; \<open>Thrown s\<close> is a thrown value
  that is not an \<^verbatim>\<open>Error\<close> instance, carried as its \<^verbatim>\<open>String(e)\<close> coercion.
\<close>

datatype js_error = Error string | TypeError string | SyntaxError string | Thrown string

fun error_message :: "js_error \<Rightarrow> string" where
  "error_message (Error m) = m"
| "error_message (TypeError m) = m"
| "error_message (SyntaxError m) = m"
| "error_message (Thrown s) = s"

section \<open>JavaScript values\<close>

text \<open>
  What \<^verbatim>\<open>JSON.parse\<close> returns, and so what the adapters receive as \<^verbatim>\<open>any\<close>. Numbers are
  integers here (the wire formats use them for indices and token counts). An object is
  the list of its own properties in insertion order, read by the first match.
  \<^verbatim>\<open>undefined\<close> is not a JSON value: a JavaScript value is a \<open>json option\<close> with \<open>None\<close>
  for \<^verbatim>\<open>undefined\<close>.
\<close>

datatype json =
    JNull
  | JBool bool
  | JNum int
  | JStr string
  | JArr "json list"
  | JObj "(string \<times> json) list"

type_synonym js_value = "json option"

text \<open>Truthiness, as \<^verbatim>\<open>if (x)\<close>, \<^verbatim>\<open>!x\<close> and \<^verbatim>\<open>x || y\<close> test it.\<close>

fun truthy :: "js_value \<Rightarrow> bool" where
  "truthy None = False"
| "truthy (Some JNull) = False"
| "truthy (Some (JBool b)) = b"
| "truthy (Some (JNum n)) = (n \<noteq> 0)"
| "truthy (Some (JStr s)) = (s \<noteq> [])"
| "truthy (Some (JArr xs)) = True"
| "truthy (Some (JObj kvs)) = True"

text \<open>\<^verbatim>\<open>a || b\<close>, and \<^verbatim>\<open>a || d\<close> with a default \<open>d\<close> that is not \<^verbatim>\<open>undefined\<close>.\<close>

definition js_or :: "js_value \<Rightarrow> js_value \<Rightarrow> js_value" where
  "js_or a b = (if truthy a then a else b)"

definition or_else :: "js_value \<Rightarrow> json \<Rightarrow> json" where
  "or_else a d = (case a of None \<Rightarrow> d | Some v \<Rightarrow> if truthy (Some v) then v else d)"

text \<open>
  \<^verbatim>\<open>v.k\<close> on a value that is neither \<^verbatim>\<open>null\<close> nor \<^verbatim>\<open>undefined\<close>, for the property names the
  adapters read (\<^verbatim>\<open>choices\<close>, \<^verbatim>\<open>delta\<close>, \<^verbatim>\<open>type\<close>, \<^verbatim>\<open>index\<close>, ...): none of them is on
  the prototype of a string, number, boolean, array or object, so the read is
  \<^verbatim>\<open>undefined\<close> unless the value is an object with that own property.
\<close>

fun get_prop :: "json \<Rightarrow> string \<Rightarrow> js_value" where
  "get_prop (JObj kvs) k = map_of kvs k"
| "get_prop _ k = None"

text \<open>\<^verbatim>\<open>x.k\<close>: a \<^verbatim>\<open>TypeError\<close> on \<^verbatim>\<open>null\<close> and \<^verbatim>\<open>undefined\<close>.\<close>

fun read_prop :: "js_value \<Rightarrow> string \<Rightarrow> js_error + js_value" where
  "read_prop None k = Inl (TypeError (''Cannot read properties of undefined (reading '' @ k @ '')''))"
| "read_prop (Some JNull) k = Inl (TypeError (''Cannot read properties of null (reading '' @ k @ '')''))"
| "read_prop (Some v) k = Inr (get_prop v k)"

text \<open>\<^verbatim>\<open>x?.k\<close>: \<^verbatim>\<open>undefined\<close> on \<^verbatim>\<open>null\<close> and \<^verbatim>\<open>undefined\<close>.\<close>

fun opt_prop :: "js_value \<Rightarrow> string \<Rightarrow> js_value" where
  "opt_prop None k = None"
| "opt_prop (Some JNull) k = None"
| "opt_prop (Some v) k = get_prop v k"

text \<open>
  \<^verbatim>\<open>x?.[0]\<close>: the first element of an array, the first character of a string, the
  property \<^verbatim>\<open>"0"\<close> of an object.
\<close>

fun opt_index0 :: "js_value \<Rightarrow> js_value" where
  "opt_index0 (Some (JArr (x # xs))) = Some x"
| "opt_index0 (Some (JStr (c # cs))) = Some (JStr [c])"
| "opt_index0 (Some (JObj kvs)) = map_of kvs ''0''"
| "opt_index0 _ = None"

text \<open>Decimal digits of a natural number, as \<^verbatim>\<open>String(n)\<close> prints an integer.\<close>

definition digit_char :: "nat \<Rightarrow> char" where
  "digit_char d = ''0123456789'' ! d"

function show_nat :: "nat \<Rightarrow> string" where
  "show_nat n = (if n < 10 then [digit_char n] else show_nat (n div 10) @ [digit_char (n mod 10)])"
  by pat_completeness auto
termination
  by (relation "measure (\<lambda>n. n)") auto

declare show_nat.simps [simp del]

definition show_int :: "int \<Rightarrow> string" where
  "show_int i = (if i < 0 then CHR ''-'' # show_nat (nat (- i)) else show_nat (nat i))"

text \<open>\<^verbatim>\<open>Array.prototype.join\<close> on strings.\<close>

fun join :: "string \<Rightarrow> string list \<Rightarrow> string" where
  "join sep [] = []"
| "join sep [x] = x"
| "join sep (x # y # ys) = x @ sep @ join sep (y # ys)"

text \<open>
  \<^verbatim>\<open>String(v)\<close>, the coercion of a template literal and of \<^verbatim>\<open>s += v\<close>: an array joins
  its elements with a comma, printing \<^verbatim>\<open>null\<close> as the empty string.
\<close>

fun js_toString :: "json \<Rightarrow> string" where
  "js_toString JNull = ''null''"
| "js_toString (JBool b) = (if b then ''true'' else ''false'')"
| "js_toString (JNum n) = show_int n"
| "js_toString (JStr s) = s"
| "js_toString (JArr xs) = join '','' (map (\<lambda>x. if x = JNull then [] else js_toString x) xs)"
| "js_toString (JObj kvs) = ''[object Object]''"

text \<open>\<^verbatim>\<open>s.startsWith(p)\<close> and \<^verbatim>\<open>s.slice(n)\<close> for \<open>n \<ge> 0\<close>.\<close>

definition startsWith :: "string \<Rightarrow> string \<Rightarrow> bool" where
  "startsWith s p = (take (length p) s = p)"

definition slice :: "string \<Rightarrow> nat \<Rightarrow> string" where
  "slice s n = drop n s"

text \<open>
  \<^verbatim>\<open>s.split('\\n')\<close>: the pieces between line feeds; never empty, and the last piece is
  what follows the last line feed.
\<close>

fun split_lines :: "string \<Rightarrow> string list" where
  "split_lines [] = [[]]"
| "split_lines (c # cs) =
     (if c = CHR 0x0A then [] # split_lines cs
      else (case split_lines cs of
              [] \<Rightarrow> [[c]]
            | l # ls \<Rightarrow> (c # l) # ls))"

section \<open>Inbound translation shared by the adapters\<close>

text \<open>
  \<^verbatim>\<open>JSON.parse\<close> belongs to the platform, not to the repository: the adapters are
  parameterised by it. A parser gives \<open>None\<close> where \<^verbatim>\<open>JSON.parse\<close> throws.
\<close>

type_synonym json_parser = "string \<Rightarrow> json option"

text \<open>
  \<^verbatim>\<open>TextDecoder\<close> belongs to the platform too. The adapters create one decoder before the
  loop over the reads and call it once for each read, with \<^verbatim>\<open>{stream: true}\<close>, so what a
  call returns depends on the bytes of the calls before it: a decoder gives, for the
  values of the earlier calls in order and the value of this call, what
  \<^verbatim>\<open>decoder.decode(value, {stream: true})\<close> returns.
\<close>

type_synonym text_decoder = "string list \<Rightarrow> string \<Rightarrow> string"

text \<open>
  A function-call descriptor as the adapters build it, \<^verbatim>\<open>{id, name, args}\<close>; \<^verbatim>\<open>id\<close> and
  \<^verbatim>\<open>name\<close> are copied from the wire and may be \<^verbatim>\<open>undefined\<close>.
\<close>

record GeminiFunctionCall =
  fc_id :: js_value
  fc_name :: js_value
  fc_args :: json

text \<open>
  The object the adapters return as \<^verbatim>\<open>GenerateContentResponse\<close>. Its single candidate is
  \<^verbatim>\<open>{content: {parts: [{text}], role: 'model'}, finishReason, index: 0}\<close>, so the text and
  the finish reason determine it; the three counters are \<^verbatim>\<open>usageMetadata\<close>.
\<close>

record AdapterResponse =
  resp_text :: json
  resp_finishReason :: json
  resp_promptTokenCount :: json
  resp_candidatesTokenCount :: json
  resp_totalTokenCount :: json
  resp_functionCalls :: "GeminiFunctionCall list"

text \<open>One \<^verbatim>\<open>reader.read()\<close> that delivers bytes, or its rejection; the end of the list is \<^verbatim>\<open>done\<close>.\<close>

datatype reader_read = Chunk string | ReadFailure js_error

text \<open>The fetch response: \<^verbatim>\<open>ok\<close>, \<^verbatim>\<open>status\<close>, \<^verbatim>\<open>statusText\<close> and the reads of the body, if any.\<close>

record HttpResponse =
  http_ok :: bool
  http_status :: nat
  http_statusText :: string
  http_body :: "reader_read list option"

section \<open>OpenAI-compatible adapter: inbound\<close>

text \<open>
  An entry of \<^verbatim>\<open>toolCallAccumulator\<close>. The map itself is the list of its entries in
  insertion order (\<^verbatim>\<open>Map\<close> iterates in that order, and \<^verbatim>\<open>set\<close> on a present key keeps
  its place), \<^verbatim>\<open>indexToIdMap\<close> likewise. Keys are compared as values.
\<close>

record oa_tool_call =
  oa_id :: json
  oa_name :: json
  oa_arguments :: string

type_synonym oa_accumulator = "(json \<times> oa_tool_call) list"
type_synonym oa_index_map = "(json \<times> json) list"

text \<open>
  The streaming branch of the loop body of \<^verbatim>\<open>convertFromOpenAIFormat\<close> for one
  \<^verbatim>\<open>toolCall\<close> whose \<^verbatim>\<open>function\<close> is \<open>fn\<close>.
\<close>

definition accumulate_tool_call ::
  "json \<Rightarrow> json \<Rightarrow> oa_accumulator \<times> oa_index_map \<Rightarrow> oa_accumulator \<times> oa_index_map" where
  "accumulate_tool_call toolCall fn st =
     (let toolCallAccumulator = fst st;
          indexToIdMap = snd st;
          index = or_else (get_prop toolCall ''index'') (JNum 0);
          indexToIdMap1 =
            (case get_prop toolCall ''id'' of
               Some i \<Rightarrow> if truthy (Some i) then AList.update index i indexToIdMap else indexToIdMap
             | None \<Rightarrow> indexToIdMap);
          callId = or_else (js_or (map_of indexToIdMap1 index) (get_prop toolCall ''id''))
                     (JStr (''call_'' @ js_toString index));
          acc1 =
            (if map_of toolCallAccumulator callId = None
             then toolCallAccumulator @
                    [(callId, \<lparr>oa_id = callId,
                               oa_name = or_else (get_prop fn ''name'') (JStr ''''),
                               oa_arguments = ''''\<rparr>)]
             else toolCallAccumulator);
          acc2 =
            (case get_prop fn ''name'' of
               Some n \<Rightarrow> if truthy (Some n) then AList.map_entry callId (\<lambda>a. a\<lparr>oa_name := n\<rparr>) acc1 else acc1
             | None \<Rightarrow> acc1);
          acc3 =
            (case get_prop fn ''arguments'' of
               Some a \<Rightarrow> if truthy (Some a)
                         then AList.map_entry callId
                                (\<lambda>e. e\<lparr>oa_arguments := oa_arguments e @ js_toString a\<rparr>) acc2
                         else acc2
             | None \<Rightarrow> acc2)
      in (acc3, indexToIdMap1))"

text \<open>The non-streaming branch: the arguments are parsed on the spot, \<^verbatim>\<open>{}\<close> when that throws.\<close>

definition single_shot_call :: "json_parser \<Rightarrow> json \<Rightarrow> json \<Rightarrow> GeminiFunctionCall" where
  "single_shot_call JSON_parse toolCall fn =
     \<lparr>fc_id = get_prop toolCall ''id'',
      fc_name = get_prop fn ''name'',
      fc_args =
        (case get_prop fn ''arguments'' of
           Some (JStr s) \<Rightarrow> (case JSON_parse s of Some args \<Rightarrow> args | None \<Rightarrow> JObj [])
         | a \<Rightarrow> or_else a (JObj []))\<rparr>"

text \<open>
  The loop over \<^verbatim>\<open>message.tool_calls\<close>. \<open>withMaps\<close> says that both optional map
  parameters were passed; \<open>st\<close> is then their content. A \<^verbatim>\<open>null\<close> element makes
  \<^verbatim>\<open>toolCall.type\<close> throw: the loop stops there, and what the earlier elements wrote into
  the maps stays written.
\<close>

fun tool_calls_loop ::
  "json_parser \<Rightarrow> bool \<Rightarrow> bool \<Rightarrow> json list \<Rightarrow> oa_accumulator \<times> oa_index_map \<Rightarrow>
   GeminiFunctionCall list \<Rightarrow> (oa_accumulator \<times> oa_index_map) \<times> (js_error + GeminiFunctionCall list)" where
  "tool_calls_loop JSON_parse isStream withMaps [] st functionCalls = (st, Inr functionCalls)"
| "tool_calls_loop JSON_parse isStream withMaps (toolCall # rest) st functionCalls =
     (case read_prop (Some toolCall) ''type'' of
        Inl e \<Rightarrow> (st, Inl e)
      | Inr ty \<Rightarrow>
          (case get_prop toolCall ''function'' of
             Some fn \<Rightarrow>
               if (ty = Some (JStr ''function'') \<or> isStream) \<and> truthy (Some fn) then
                 (if isStream \<and> withMaps
                  then tool_calls_loop JSON_parse isStream withMaps rest
                         (accumulate_tool_call toolCall fn st) functionCalls
                  else tool_calls_loop JSON_parse isStream withMaps rest st
                         (functionCalls @ [single_shot_call JSON_parse toolCall fn]))
               else tool_calls_loop JSON_parse isStream withMaps rest st functionCalls
           | None \<Rightarrow> tool_calls_loop JSON_parse isStream withMaps rest st functionCalls))"

definition convertFromOpenAIFormat ::
  "json_parser \<Rightarrow> json \<Rightarrow> bool \<Rightarrow> bool \<Rightarrow> oa_accumulator \<times> oa_index_map \<Rightarrow>
   (oa_accumulator \<times> oa_index_map) \<times> (js_error + AdapterResponse option)" where
  "convertFromOpenAIFormat JSON_parse data isStream withMaps st =
     (case read_prop (Some data) ''choices'' of
        Inl e \<Rightarrow> (st, Inl e)
      | Inr choices \<Rightarrow>
          (case opt_index0 choices of
             None \<Rightarrow> (st, Inl (Error ''No choices in response''))
           | Some choice \<Rightarrow>
               if \<not> truthy (Some choice) then (st, Inl (Error ''No choices in response''))
               else
                 (let message = get_prop choice (if isStream then ''delta'' else ''message'');
                      text = or_else (opt_prop message ''content'') (JStr '''')
                  in case (case opt_prop message ''tool_calls'' of
                             Some (JArr tool_calls) \<Rightarrow>
                               tool_calls_loop JSON_parse isStream withMaps tool_calls st []
                           | _ \<Rightarrow> (st, Inr [])) of
                       (st1, Inl e) \<Rightarrow> (st1, Inl e)
                     | (st1, Inr functionCalls) \<Rightarrow>
                         if isStream \<and> \<not> truthy (Some text) \<and> functionCalls = []
                         then (st1, Inr None)
                         else (st1, Inr (Some
                           \<lparr>resp_text = text,
                            resp_finishReason = or_else (get_prop choice ''finish_reason'') (JStr ''STOP''),
                            resp_promptTokenCount =
                              or_else (opt_prop (get_prop data ''usage'') ''prompt_tokens'') (JNum 0),
                            resp_candidatesTokenCount =
                              or_else (opt_prop (get_prop data ''usage'') ''completion_tokens'') (JNum 0),
                            resp_totalTokenCount =
                              or_else (opt_prop (get_prop data ''usage'') ''total_tokens'') (JNum 0),
                            resp_functionCalls = functionCalls\<rparr>)))))"

text \<open>
  \<^verbatim>\<open>convertAccumulatedToolCallsToGemini\<close>: one descriptor per entry, in the order of the
  list; empty arguments are not parsed, and arguments that do not parse give \<^verbatim>\<open>{}\<close>.
\<close>

definition accumulated_call :: "json_parser \<Rightarrow> oa_tool_call \<Rightarrow> GeminiFunctionCall" where
  "accumulated_call JSON_parse toolCall =
     \<lparr>fc_id = Some (oa_id toolCall),
      fc_name = Some (oa_name toolCall),
      fc_args =
        (if oa_arguments toolCall \<noteq> []
         then (case JSON_parse (oa_arguments toolCall) of Some args \<Rightarrow> args | None \<Rightarrow> JObj [])
         else JObj [])\<rparr>"

definition tool_calls_response :: "GeminiFunctionCall list \<Rightarrow> AdapterResponse" where
  "tool_calls_response functionCalls =
     \<lparr>resp_text = JStr '''',
      resp_finishReason = JStr ''tool_calls'',
      resp_promptTokenCount = JNum 0,
      resp_candidatesTokenCount = JNum 0,
      resp_totalTokenCount = JNum 0,
      resp_functionCalls = functionCalls\<rparr>"

definition convertAccumulatedToolCallsToGemini ::
  "json_parser \<Rightarrow> oa_tool_call list \<Rightarrow> AdapterResponse option" where
  "convertAccumulatedToolCallsToGemini JSON_parse toolCalls =
     (let functionCalls = map (accumulated_call JSON_parse) toolCalls
      in if functionCalls = [] then None else Some (tool_calls_response functionCalls))"

text \<open>
  The \<^verbatim>\<open>for (const line of lines)\<close> loop of \<^verbatim>\<open>generateContentStreamInternal\<close>. It gives
  the maps, the responses yielded, and whether it returned at \<^verbatim>\<open>[DONE]\<close>. Whatever the
  \<^verbatim>\<open>try\<close> block throws is caught and the line skipped.
\<close>

fun oa_lines_loop ::
  "json_parser \<Rightarrow> string list \<Rightarrow> oa_accumulator \<times> oa_index_map \<Rightarrow>
   (oa_accumulator \<times> oa_index_map) \<times> AdapterResponse list \<times> bool" where
  "oa_lines_loop JSON_parse [] st = (st, [], False)"
| "oa_lines_loop JSON_parse (line # rest) st =
     (if startsWith line ''data: '' then
        (let data = slice line 6 in
         if data = ''[DONE]'' then
           (st,
            (if fst st \<noteq> []
             then (case convertAccumulatedToolCallsToGemini JSON_parse (map snd (fst st)) of
                     Some geminiResponse \<Rightarrow> [geminiResponse]
                   | None \<Rightarrow> [])
             else []),
            True)
         else
           (case JSON_parse data of
              None \<Rightarrow> oa_lines_loop JSON_parse rest st
            | Some parsed \<Rightarrow>
                (case convertFromOpenAIFormat JSON_parse parsed True True st of
                   (st1, Inr (Some geminiResponse)) \<Rightarrow>
                     (case oa_lines_loop JSON_parse rest st1 of
                        (st2, out, fin) \<Rightarrow> (st2, geminiResponse # out, fin))
                 | (st1, _) \<Rightarrow> oa_lines_loop JSON_parse rest st1)))
      else oa_lines_loop JSON_parse rest st)"

text \<open>
  The \<^verbatim>\<open>while (true)\<close> loop over the reads, with the values decoded so far, the buffer
  and the maps as arguments. It gives the responses yielded, whether the generator
  returned at \<^verbatim>\<open>[DONE]\<close>, and the error of a rejected read.
\<close>

fun oa_read_loop ::
  "json_parser \<Rightarrow> text_decoder \<Rightarrow> reader_read list \<Rightarrow> string list \<Rightarrow> string \<Rightarrow>
   oa_accumulator \<times> oa_index_map \<Rightarrow> AdapterResponse list \<times> bool \<times> js_error option" where
  "oa_read_loop JSON_parse decode [] earlier buffer st = ([], False, None)"
| "oa_read_loop JSON_parse decode (ReadFailure e # reads) earlier buffer st = ([], False, Some e)"
| "oa_read_loop JSON_parse decode (Chunk v # reads) earlier buffer st =
     (let lines = split_lines (buffer @ decode earlier v) in
      case oa_lines_loop JSON_parse (butlast lines) st of
        (st1, out, True) \<Rightarrow> (out, True, None)
      | (st1, out, False) \<Rightarrow>
          (case oa_read_loop JSON_parse decode reads (earlier @ [v]) (last lines) st1 of
             (out2, fin, err) \<Rightarrow> (out @ out2, fin, err)))"

text \<open>
  \<^verbatim>\<open>OpenAICompatibleContentGenerator.generateContentStreamInternal\<close> from the fetch
  response on: the responses the generator yields and the error it ends with, if any.
\<close>

definition openai_generateContentStreamInternal ::
  "json_parser \<Rightarrow> text_decoder \<Rightarrow> HttpResponse \<Rightarrow>
   AdapterResponse list \<times> bool \<times> js_error option" where
  "openai_generateContentStreamInternal JSON_parse decode response =
     (if \<not> http_ok response
      then ([], False, Some (Error (''HTTP '' @ show_nat (http_status response) @ '': '' @
                                     http_statusText response)))
      else (case http_body response of
              None \<Rightarrow> ([], False, Some (Error ''No response body''))
            | Some reads \<Rightarrow> oa_read_loop JSON_parse decode reads [] [] ([], [])))"

section \<open>Anthropic adapter: inbound\<close>

text \<open>
  An entry of the Anthropic \<^verbatim>\<open>toolCallAccumulator\<close>, keyed by \<^verbatim>\<open>index_<n>\<close>; the map is
  again the list of its entries in insertion order.
\<close>

record an_tool_call =
  an_id :: js_value
  an_name :: js_value
  an_input :: string

type_synonym an_accumulator = "(string \<times> an_tool_call) list"

definition createStreamingTextResponse :: "json \<Rightarrow> AdapterResponse" where
  "createStreamingTextResponse text =
     \<lparr>resp_text = text,
      resp_finishReason = JStr ''STOP'',
      resp_promptTokenCount = JNum 0,
      resp_candidatesTokenCount = JNum 0,
      resp_totalTokenCount = JNum 0,
      resp_functionCalls = []\<rparr>"

text \<open>
  \<^verbatim>\<open>handleAnthropicStreamingEvent\<close>. \<open>withMap\<close> says that the optional accumulator was
  passed. Where \<^verbatim>\<open>data.delta.text\<close> and \<^verbatim>\<open>data.delta.partial_json\<close> are read,
  \<^verbatim>\<open>data.delta\<close> has a \<^verbatim>\<open>type\<close> and so is an object: the plain read and \<open>opt_prop\<close>
  agree. The \<^verbatim>\<open>for\<close> loop over the entries appends to the entry whose key is
  \<^verbatim>\<open>indexKey\<close>, if there is one.
\<close>

definition handleAnthropicStreamingEvent ::
  "json \<Rightarrow> bool \<Rightarrow> an_accumulator \<Rightarrow> an_accumulator \<times> (js_error + AdapterResponse option)" where
  "handleAnthropicStreamingEvent data withMap toolCallAccumulator =
     (case read_prop (Some data) ''type'' of
        Inl e \<Rightarrow> (toolCallAccumulator, Inl e)
      | Inr ty \<Rightarrow>
          if ty = Some (JStr ''content_block_delta'') then
            (let delta = get_prop data ''delta'' in
             if opt_prop delta ''type'' = Some (JStr ''text_delta'') then
               (toolCallAccumulator,
                Inr (Some (createStreamingTextResponse (or_else (opt_prop delta ''text'') (JStr '''')))))
             else if opt_prop delta ''type'' = Some (JStr ''input_json_delta'') \<and> withMap then
               (let blockIndex = or_else (get_prop data ''index'') (JNum 0);
                    partialJson = or_else (opt_prop delta ''partial_json'') (JStr '''');
                    indexKey = ''index_'' @ js_toString blockIndex
                in (AList.map_entry indexKey
                      (\<lambda>accumulated. accumulated\<lparr>an_input := an_input accumulated @ js_toString partialJson\<rparr>)
                      toolCallAccumulator,
                    Inr None))
             else (toolCallAccumulator, Inr None))
          else if ty = Some (JStr ''content_block_start'') \<and> withMap then
            (let toolCall = get_prop data ''content_block'' in
             if opt_prop toolCall ''type'' = Some (JStr ''tool_use'') then
               (let blockIndex = or_else (get_prop data ''index'') (JNum 0);
                    indexKey = ''index_'' @ js_toString blockIndex
                in (AList.update indexKey
                      \<lparr>an_id = opt_prop toolCall ''id'', an_name = opt_prop toolCall ''name'', an_input = ''''\<rparr>
                      toolCallAccumulator,
                    Inr None))
             else (toolCallAccumulator, Inr None))
          else (toolCallAccumulator, Inr None))"

text \<open>\<^verbatim>\<open>convertAccumulatedAnthropicToolCallsToGemini\<close>.\<close>

definition accumulated_anthropic_call :: "json_parser \<Rightarrow> an_tool_call \<Rightarrow> GeminiFunctionCall" where
  "accumulated_anthropic_call JSON_parse toolCall =
     \<lparr>fc_id = an_id toolCall,
      fc_name = an_name toolCall,
      fc_args =
        (if an_input toolCall \<noteq> []
         then (case JSON_parse (an_input toolCall) of Some args \<Rightarrow> args | None \<Rightarrow> JObj [])
         else JObj [])\<rparr>"

definition convertAccumulatedAnthropicToolCallsToGemini ::
  "json_parser \<Rightarrow> an_tool_call list \<Rightarrow> AdapterResponse option" where
  "convertAccumulatedAnthropicToolCallsToGemini JSON_parse toolCalls =
     (let functionCalls = map (accumulated_anthropic_call JSON_parse) toolCalls
      in if functionCalls = [] then None else Some (tool_calls_response functionCalls))"

text \<open>
  The loop over the lines of the Anthropic \<^verbatim>\<open>generateContentStreamInternal\<close>: an
  \<^verbatim>\<open>event: \<close> line is skipped, a \<^verbatim>\<open>data: \<close> line is parsed and handed to
  \<^verbatim>\<open>convertFromAnthropicFormat(parsed, true, toolCallAccumulator)\<close>, which is
  \<^verbatim>\<open>handleAnthropicStreamingEvent\<close>; what the \<^verbatim>\<open>try\<close> block throws is caught.
\<close>

fun an_lines_loop ::
  "json_parser \<Rightarrow> string list \<Rightarrow> an_accumulator \<Rightarrow> an_accumulator \<times> AdapterResponse list" where
  "an_lines_loop JSON_parse [] acc = (acc, [])"
| "an_lines_loop JSON_parse (line # rest) acc =
     (if startsWith line ''event: '' then an_lines_loop JSON_parse rest acc
      else if startsWith line ''data: '' then
        (case JSON_parse (slice line 6) of
           None \<Rightarrow> an_lines_loop JSON_parse rest acc
         | Some parsed \<Rightarrow>
             (case handleAnthropicStreamingEvent parsed True acc of
                (acc1, Inr (Some geminiResponse)) \<Rightarrow>
                  (case an_lines_loop JSON_parse rest acc1 of
                     (acc2, out) \<Rightarrow> (acc2, geminiResponse # out))
              | (acc1, _) \<Rightarrow> an_lines_loop JSON_parse rest acc1))
      else an_lines_loop JSON_parse rest acc)"

text \<open>
  The loop over the reads and the flush that follows it, with the values decoded so far,
  the buffer and the map as arguments. The accumulated tool calls are converted when the
  body is done; a rejected read leaves the \<^verbatim>\<open>try\<close> block before that.
\<close>

fun an_read_loop ::
  "json_parser \<Rightarrow> text_decoder \<Rightarrow> reader_read list \<Rightarrow> string list \<Rightarrow> string \<Rightarrow>
   an_accumulator \<Rightarrow> AdapterResponse list \<times> js_error option" where
  "an_read_loop JSON_parse decode [] earlier buffer acc =
     ((if acc \<noteq> []
       then (case convertAccumulatedAnthropicToolCallsToGemini JSON_parse (map snd acc) of
               Some geminiResponse \<Rightarrow> [geminiResponse]
             | None \<Rightarrow> [])
       else []),
      None)"
| "an_read_loop JSON_parse decode (ReadFailure e # reads) earlier buffer acc = ([], Some e)"
| "an_read_loop JSON_parse decode (Chunk v # reads) earlier buffer acc =
     (let lines = split_lines (buffer @ decode earlier v) in
      case an_lines_loop JSON_parse (butlast lines) acc of
        (acc1, out) \<Rightarrow>
          (case an_read_loop JSON_parse decode reads (earlier @ [v]) (last lines) acc1 of
             (out2, err) \<Rightarrow> (out @ out2, err)))"

text \<open>
  \<^verbatim>\<open>AnthropicContentGenerator.generateContentStreamInternal\<close> from the fetch response on;
  \<open>errorDetails\<close> is what the body of a failed response reads as.
\<close>

definition anthropic_generateContentStreamInternal ::
  "json_parser \<Rightarrow> text_decoder \<Rightarrow> string \<Rightarrow> HttpResponse \<Rightarrow>
   AdapterResponse list \<times> js_error option" where
  "anthropic_generateContentStreamInternal JSON_parse decode errorDetails response =
     (if \<not> http_ok response
      then ([], Some (Error (''HTTP '' @ show_nat (http_status response) @ '': '' @
                              http_statusText response @ ''. Details: '' @ errorDetails)))
      else (case http_body response of
              None \<Rightarrow> ([], Some (Error ''No response body''))
            | Some reads \<Rightarrow> an_read_loop JSON_parse decode reads [] [] []))"

section \<open>A JSON reader\<close>

text \<open>
  A reader for the part of JSON without \<^verbatim>\<open>\u\<close> escapes, fractions and exponents (it
  gives \<open>None\<close> on those), to run the adapters on the bytes of a concrete stream. A
  repeated key keeps its first place and its last value, as \<^verbatim>\<open>JSON.parse\<close> has it. The
  first argument bounds the number of nested and successive values.
\<close>

definition is_ws :: "char \<Rightarrow> bool" where
  "is_ws c = (c = CHR '' '' \<or> c = CHR 0x09 \<or> c = CHR 0x0A \<or> c = CHR 0x0D)"

fun skip_ws :: "string \<Rightarrow> string" where
  "skip_ws [] = []"
| "skip_ws (c # cs) = (if is_ws c then skip_ws cs else c # cs)"

definition expect :: "char \<Rightarrow> string \<Rightarrow> string option" where
  "expect c cs = (case skip_ws cs of [] \<Rightarrow> None | d # r \<Rightarrow> if d = c then Some r else None)"

definition unescape :: "char \<Rightarrow> char option" where
  "unescape e =
     (if e = CHR 0x22 \<or> e = CHR 0x5C \<or> e = CHR ''/'' then Some e
      else if e = CHR ''n'' then Some (CHR 0x0A)
      else if e = CHR ''t'' then Some (CHR 0x09)
      else if e = CHR ''r'' then Some (CHR 0x0D)
      else if e = CHR ''b'' then Some (CHR 0x08)
      else if e = CHR ''f'' then Some (CHR 0x0C)
      else None)"

fun read_string_body :: "string \<Rightarrow> (string \<times> string) option" where
  "read_string_body [] = None"
| "read_string_body [c] = (if c = CHR 0x22 then Some ([], []) else None)"
| "read_string_body (c # d # cs) =
     (if c = CHR 0x22 then Some ([], d # cs)
      else if c = CHR 0x5C then
        (case unescape d of
           None \<Rightarrow> None
         | Some ch \<Rightarrow> map_option (\<lambda>(s, r). (ch # s, r)) (read_string_body cs))
      else if (of_char c :: nat) < 32 then None
      else map_option (\<lambda>(s, r). (c # s, r)) (read_string_body (d # cs)))"

definition is_digit :: "char \<Rightarrow> bool" where
  "is_digit c = (48 \<le> (of_char c :: nat) \<and> (of_char c :: nat) \<le> 57)"

definition digits_value :: "string \<Rightarrow> nat" where
  "digits_value ds = foldl (\<lambda>a c. 10 * a + (of_char c - 48)) 0 ds"

definition read_number :: "string \<Rightarrow> (json \<times> string) option" where
  "read_number cs =
     (let neg = (case cs of [] \<Rightarrow> False | c # r \<Rightarrow> c = CHR ''-'');
          body = (if neg then tl cs else cs);
          ds = takeWhile is_digit body;
          r = dropWhile is_digit body
      in if ds = [] \<or> (hd ds = CHR ''0'' \<and> length ds > 1) then None
         else if r \<noteq> [] \<and> (hd r = CHR ''.'' \<or> hd r = CHR ''e'' \<or> hd r = CHR ''E'') then None
         else Some (JNum (if neg then - int (digits_value ds) else int (digits_value ds)), r))"

definition put_member :: "string \<Rightarrow> json \<Rightarrow> (string \<times> json) list \<Rightarrow> (string \<times> json) list" where
  "put_member k v kvs =
     (case map_of kvs k of None \<Rightarrow> (k, v) # kvs | Some w \<Rightarrow> (k, w) # AList.delete k kvs)"

fun read_value :: "nat \<Rightarrow> string \<Rightarrow> (json \<times> string) option"
  and read_elements :: "nat \<Rightarrow> string \<Rightarrow> (json list \<times> string) option"
  and read_members :: "nat \<Rightarrow> string \<Rightarrow> ((string \<times> json) list \<times> string) option" where
  "read_value 0 cs = None"
| "read_value (Suc n) cs =
     (case skip_ws cs of
        [] \<Rightarrow> None
      | c # r \<Rightarrow>
          if c = CHR ''n'' then (if take 3 r = ''ull'' then Some (JNull, drop 3 r) else None)
          else if c = CHR ''t'' then (if take 3 r = ''rue'' then Some (JBool True, drop 3 r) else None)
          else if c = CHR ''f'' then (if take 4 r = ''alse'' then Some (JBool False, drop 4 r) else None)
          else if c = CHR 0x22 then map_option (\<lambda>(s, r1). (JStr s, r1)) (read_string_body r)
          else if c = CHR ''['' then
            (case expect (CHR '']'') r of
               Some r1 \<Rightarrow> Some (JArr [], r1)
             | None \<Rightarrow> map_option (\<lambda>(xs, r1). (JArr xs, r1)) (read_elements n r))
          else if c = CHR ''{'' then
            (case expect (CHR ''}'') r of
               Some r1 \<Rightarrow> Some (JObj [], r1)
             | None \<Rightarrow> map_option (\<lambda>(kvs, r1). (JObj kvs, r1)) (read_members n r))
          else read_number (c # r))"
| "read_elements 0 cs = None"
| "read_elements (Suc n) cs =
     (case read_value n cs of
        None \<Rightarrow> None
      | Some (v, r) \<Rightarrow>
          (case expect (CHR '','') r of
             Some r1 \<Rightarrow> map_option (\<lambda>(vs, r2). (v # vs, r2)) (read_elements n r1)
           | None \<Rightarrow> map_option (\<lambda>r1. ([v], r1)) (expect (CHR '']'') r)))"
| "read_members 0 cs = None"
| "read_members (Suc n) cs =
     (case expect (CHR 0x22) cs of
        None \<Rightarrow> None
      | Some r \<Rightarrow>
          (case read_string_body r of
             None \<Rightarrow> None
           | Some (k, r1) \<Rightarrow>
               (case expect (CHR '':'') r1 of
                  None \<Rightarrow> None
                | Some r2 \<Rightarrow>
                    (case read_value n r2 of
                       None \<Rightarrow> None
                     | Some (v, r3) \<Rightarrow>
                         (case expect (CHR '','') r3 of
                            Some r4 \<Rightarrow> map_option (\<lambda>(kvs, r5). (put_member k v kvs, r5)) (read_members n r4)
                          | None \<Rightarrow> map_option (\<lambda>r4. ([(k, v)], r4)) (expect (CHR ''}'') r3))))))"

definition json_read :: json_parser where
  "json_read s =
     (case read_value (Suc (length s)) s of
        None \<Rightarrow> None
      | Some (v, r) \<Rightarrow> if skip_ws r = [] then Some v else None)"

section \<open>A text decoder\<close>

text \<open>
  The text that a decoder makes of the reads \<open>values\<close>, after the reads \<open>earlier\<close>: what
  the calls return, joined.
\<close>

fun decoded_text :: "text_decoder \<Rightarrow> string list \<Rightarrow> string list \<Rightarrow> string" where
  "decoded_text decode earlier [] = []"
| "decoded_text decode earlier (v # values) =
     decode earlier v @ decoded_text decode (earlier @ [v]) values"

text \<open>
  The UTF-8 \<^verbatim>\<open>TextDecoder\<close> on bytes below 0x80 that may follow a byte order mark, to run
  the adapters on the bytes of a concrete stream: the decoder drops a byte order mark at
  the start of the stream, holds it back while it is incomplete, and gives every other
  byte as the character it encodes. \<open>utf8_text\<close> is the text given once the bytes
  \<open>bytes\<close> have arrived.
\<close>

definition byte_order_mark :: string where
  "byte_order_mark = [CHR 0xEF, CHR 0xBB, CHR 0xBF]"

definition utf8_text :: "string \<Rightarrow> string" where
  "utf8_text bytes =
     (if take 3 bytes = byte_order_mark then drop 3 bytes
      else if bytes = take (length bytes) byte_order_mark then []
      else bytes)"

definition utf8_decode :: text_decoder where
  "utf8_decode earlier v =
     drop (length (utf8_text (concat earlier))) (utf8_text (concat earlier @ v))"

section \<open>Unified message model\<close>

text \<open>
  \<^verbatim>\<open>Content\<close>, \<^verbatim>\<open>Part\<close>, \<^verbatim>\<open>FunctionCall\<close> and \<^verbatim>\<open>FunctionResponse\<close> as \<^verbatim>\<open>@google/genai\<close>
  declares them and as the outbound translation and the turn engine read them. \<open>None\<close>
  is an absent key: \<^verbatim>\<open>'text' in part\<close> is \<open>part_text part \<noteq> None\<close>.
\<close>

record FunctionCall =
  call_id :: "string option"
  call_name :: "string option"
  call_args :: "json option"

record FunctionResponse =
  fr_id :: "string option"
  fr_name :: "string option"
  fr_response :: "json option"

record Part =
  part_text :: "string option"
  part_thought :: "bool option"
  part_functionCall :: "FunctionCall option"
  part_functionResponse :: "FunctionResponse option"
  part_inlineData :: "(string \<times> string) option"

record Content =
  content_role :: "string option"
  content_parts :: "Part list option"

definition text_part :: "string \<Rightarrow> Part" where
  "text_part s =
     \<lparr>part_text = Some s, part_thought = None, part_functionCall = None,
      part_functionResponse = None, part_inlineData = None\<rparr>"

text \<open>\<^verbatim>\<open>ContentListUnion\<close>, the type of \<^verbatim>\<open>request.contents\<close>, and the elements of its array form.\<close>

datatype ContentItem = ItemContent Content | ItemPart Part | ItemString string

datatype ContentListUnion =
    NoContents
  | ContentArray "ContentItem list"
  | OneContent Content
  | OneString string
  | OnePart Part

text \<open>
  \<^verbatim>\<open>normalizeContents\<close>. Of an array it keeps the objects that have a \<^verbatim>\<open>parts\<close> key; the
  empty string is falsy and gives no content.
\<close>

fun item_contents :: "ContentItem \<Rightarrow> Content list" where
  "item_contents (ItemContent c) = (if content_parts c \<noteq> None then [c] else [])"
| "item_contents (ItemPart p) = []"
| "item_contents (ItemString s) = []"

fun normalizeContents :: "ContentListUnion \<Rightarrow> Content list" where
  "normalizeContents NoContents = []"
| "normalizeContents (ContentArray items) = concat (map item_contents items)"
| "normalizeContents (OneContent c) = (if content_parts c \<noteq> None then [c] else [])"
| "normalizeContents (OneString s) =
     (if s = [] then []
      else [\<lparr>content_role = Some ''user'', content_parts = Some [text_part s]\<rparr>])"
| "normalizeContents (OnePart p) =
     (if part_text p \<noteq> None \<or> part_inlineData p \<noteq> None
      then [\<lparr>content_role = Some ''user'', content_parts = Some [p]\<rparr>]
      else [])"

text \<open>
  What the outbound translation reads of \<^verbatim>\<open>GenerateContentParameters\<close>: the contents
  and, of the configuration, the two fields that change the messages. \<^verbatim>\<open>JSON.stringify\<close>
  is the platform's: \<open>stringify_part\<close> is it on a part, \<open>stringify\<close> on a JSON value,
  \<open>stringify_pretty\<close> with the indentation \<^verbatim>\<open>(v, null, 2)\<close>.
\<close>

record GenerateContentParameters =
  req_contents :: ContentListUnion
  req_responseMimeType :: "string option"
  req_responseSchema :: "json option"

record platform =
  stringify_part :: "Part \<Rightarrow> string"
  stringify :: "json \<Rightarrow> string"
  stringify_pretty :: "json \<Rightarrow> string"

definition wants_json :: "GenerateContentParameters \<Rightarrow> bool" where
  "wants_json request =
     (req_responseMimeType request = Some ''application/json'' \<and> truthy (req_responseSchema request))"

definition jsonInstruction :: "platform \<Rightarrow> GenerateContentParameters \<Rightarrow> string" where
  "jsonInstruction pf request =
     ''You must respond with valid JSON only. No additional text, explanations, or formatting. The response must conform to this schema: ''
     @ (case req_responseSchema request of Some schema \<Rightarrow> stringify pf schema | None \<Rightarrow> ''undefined'')"

section \<open>OpenAI-compatible adapter: outbound\<close>

text \<open>A message of the chat-completions request; the role is passed through and may be absent.\<close>

record OpenAIMessage =
  om_role :: "string option"
  om_content :: string

definition openai_message :: "platform \<Rightarrow> Content \<Rightarrow> OpenAIMessage" where
  "openai_message pf content =
     \<lparr>om_role = (if content_role content = Some ''model'' then Some ''assistant'' else content_role content),
      om_content =
        (case content_parts content of
           None \<Rightarrow> ''''
         | Some parts \<Rightarrow>
             join [CHR 0x0A]
               (map (\<lambda>part. case part_text part of Some t \<Rightarrow> t | None \<Rightarrow> stringify_part pf part) parts))\<rparr>"

text \<open>The \<^verbatim>\<open>messages\<close> of the request that \<^verbatim>\<open>convertToOpenAIFormat\<close> builds.\<close>

definition convertToOpenAIFormat :: "platform \<Rightarrow> GenerateContentParameters \<Rightarrow> OpenAIMessage list" where
  "convertToOpenAIFormat pf request =
     (let contents = normalizeContents (req_contents request);
          messages = map (openai_message pf) contents
      in if wants_json request
         then \<lparr>om_role = Some ''system'', om_content = jsonInstruction pf request\<rparr> # messages
         else messages)"

section \<open>Anthropic adapter: outbound\<close>

text \<open>
  \<^verbatim>\<open>s.trim()\<close> on the ASCII white space (tab, line feed, vertical tab, form feed,
  carriage return, space).
\<close>

definition is_space :: "char \<Rightarrow> bool" where
  "is_space c = (c = CHR '' '' \<or> (9 \<le> (of_char c :: nat) \<and> (of_char c :: nat) \<le> 13))"

definition trim :: "string \<Rightarrow> string" where
  "trim s = rev (dropWhile is_space (rev (dropWhile is_space s)))"

definition nl :: string where
  "nl = [CHR 0x0A]"

text \<open>How a template literal prints an optional string.\<close>

definition template_string :: "string option \<Rightarrow> string" where
  "template_string s = (case s of Some t \<Rightarrow> t | None \<Rightarrow> ''undefined'')"

text \<open>
  \<^verbatim>\<open>convertToolResultsToTextForAnthropic\<close>: a user content with a function response
  becomes one text part, the summary of its tool results after its non-empty texts.
\<close>

definition tool_result_section :: "platform \<Rightarrow> FunctionResponse \<Rightarrow> string" where
  "tool_result_section pf functionResponse =
     ''### '' @ template_string (fr_name functionResponse) @ nl @
     ''```'' @ nl @
     (case fr_response functionResponse of
        Some (JStr s) \<Rightarrow> s
      | Some v \<Rightarrow> stringify_pretty pf v
      | None \<Rightarrow> ''undefined'') @
     nl @ ''```'' @ nl @ nl"

definition tool_results_summary :: "platform \<Rightarrow> Part list \<Rightarrow> string" where
  "tool_results_summary pf parts =
     (let toolResults = List.map_filter part_functionResponse parts;
          textParts =
            List.map_filter
              (\<lambda>part. if part_functionResponse part = None
                       then (case part_text part of Some t \<Rightarrow> if t \<noteq> [] then Some t else None
                                                  | None \<Rightarrow> None)
                       else None)
              parts
      in (if textParts \<noteq> [] then join nl textParts @ nl @ nl else []) @
         ''## Tool Execution Completed'' @ nl @ nl @
         ''The following tools have been executed successfully:'' @ nl @ nl @
         concat (map (tool_result_section pf) toolResults) @
         ''**Task completed successfully.** Please provide a summary of these results and any insights.'')"

definition convertToolResultsToTextForAnthropic :: "platform \<Rightarrow> Content list \<Rightarrow> Content list" where
  "convertToolResultsToTextForAnthropic pf contents =
     map (\<lambda>content.
            case content_parts content of
              Some parts \<Rightarrow>
                if content_role content = Some ''user'' \<and> (\<exists>part \<in> set parts. part_functionResponse part \<noteq> None)
                then content\<lparr>content_parts := Some [text_part (tool_results_summary pf parts)]\<rparr>
                else content
            | None \<Rightarrow> content)
         contents"

text \<open>A block of the \<^verbatim>\<open>content\<close> array of an Anthropic message, and its \<^verbatim>\<open>type\<close>.\<close>

datatype AnthropicBlock =
    TextBlock string
  | ToolUseBlock "string option" "string option" json

fun block_type :: "AnthropicBlock \<Rightarrow> string" where
  "block_type (TextBlock t) = ''text''"
| "block_type (ToolUseBlock i n inp) = ''tool_use''"

record AnthropicMessage =
  am_role :: string
  am_content :: "AnthropicBlock list"

text \<open>The four branches for one part, in the order of the source.\<close>

definition anthropic_block :: "platform \<Rightarrow> Part \<Rightarrow> AnthropicBlock" where
  "anthropic_block pf part =
     (case (case part_text part of Some t \<Rightarrow> if t \<noteq> [] then Some t else None | None \<Rightarrow> None) of
        Some t \<Rightarrow> TextBlock t
      | None \<Rightarrow>
          (case part_functionResponse part of
             Some functionResponse \<Rightarrow>
               TextBlock (''Tool result from '' @ template_string (fr_name functionResponse) @ '': '' @
                          (case fr_response functionResponse of
                             Some (JStr s) \<Rightarrow> s
                           | Some v \<Rightarrow> stringify pf v
                           | None \<Rightarrow> ''undefined''))
           | None \<Rightarrow>
               (case part_functionCall part of
                  Some functionCall \<Rightarrow>
                    ToolUseBlock (call_id functionCall) (call_name functionCall)
                      (or_else (call_args functionCall) (JObj []))
                | None \<Rightarrow> TextBlock (stringify_part pf part))))"

text \<open>
  The body of the \<^verbatim>\<open>map\<close> in \<^verbatim>\<open>convertContentsToAnthropicMessages\<close>: \<open>None\<close> is the
  \<^verbatim>\<open>null\<close> that the \<^verbatim>\<open>filter\<close> after it removes.
\<close>

definition anthropic_message :: "platform \<Rightarrow> Content \<Rightarrow> AnthropicMessage option" where
  "anthropic_message pf content =
     (let anthropicContent =
            (case content_parts content of Some parts \<Rightarrow> map (anthropic_block pf) parts | None \<Rightarrow> [])
      in if anthropicContent = [] then None
         else
           (let hasText = (\<exists>item \<in> set anthropicContent.
                             case item of TextBlock t \<Rightarrow> trim t \<noteq> [] | _ \<Rightarrow> False);
                hasToolResult = (\<exists>item \<in> set anthropicContent. block_type item = ''tool_result'');
                anthropicContent1 =
                  (if content_role content = Some ''user'' \<and> \<not> hasText \<and> hasToolResult
                   then TextBlock ''Here are the tool results:'' # anthropicContent
                   else anthropicContent)
            in Some \<lparr>am_role = (if content_role content = Some ''model'' then ''assistant'' else ''user''),
                     am_content = anthropicContent1\<rparr>))"

text \<open>
  The \<^verbatim>\<open>processedContents\<close> of \<^verbatim>\<open>convertContentsToAnthropicMessages\<close>: for a JSON
  request the instruction is put before the parts of the content at index 0 when that is
  a user content.
\<close>

definition processedContents ::
  "platform \<Rightarrow> Content list \<Rightarrow> GenerateContentParameters \<Rightarrow> Content list" where
  "processedContents pf contents request =
     (if wants_json request
      then (case contents of
              [] \<Rightarrow> []
            | content # others \<Rightarrow>
                (case content_parts content of
                   Some parts \<Rightarrow>
                     if content_role content = Some ''user''
                     then content\<lparr>content_parts := Some (text_part (jsonInstruction pf request) # parts)\<rparr> # others
                     else content # others
                 | None \<Rightarrow> content # others))
      else contents)"

text \<open>The \<^verbatim>\<open>messages\<close> of the request that \<^verbatim>\<open>convertContentsToAnthropicMessages\<close> builds.\<close>

definition convertContentsToAnthropicMessages ::
  "platform \<Rightarrow> Content list \<Rightarrow> GenerateContentParameters \<Rightarrow> AnthropicMessage list" where
  "convertContentsToAnthropicMessages pf contents request =
     List.map_filter (anthropic_message pf) (processedContents pf contents request)"

definition convertToAnthropicFormat :: "platform \<Rightarrow> GenerateContentParameters \<Rightarrow> AnthropicMessage list" where
  "convertToAnthropicFormat pf request =
     convertContentsToAnthropicMessages pf
       (convertToolResultsToTextForAnthropic pf (normalizeContents (req_contents request))) request"

text \<open>A platform and requests to run the outbound translation on.\<close>

definition example_platform :: platform where
  "example_platform =
     \<lparr>stringify_part = (\<lambda>part. ''{}''), stringify = (\<lambda>v. ''{}''), stringify_pretty = (\<lambda>v. ''{}'')\<rparr>"

definition contents_request :: "Content list \<Rightarrow> GenerateContentParameters" where
  "contents_request contents =
     \<lparr>req_contents = ContentArray (map ItemContent contents),
      req_responseMimeType = None, req_responseSchema = None\<rparr>"

section \<open>Turn engine (\<^verbatim>\<open>core/turn.ts\<close>)\<close>

record ToolCallRequestInfo =
  tcr_callId :: string
  tcr_name :: string
  tcr_args :: json
  tcr_isClientInitiated :: bool

record ThoughtSummary =
  thought_subject :: string
  thought_description :: string

record StructuredError =
  se_message :: string
  se_status :: "int option"

text \<open>The events \<^verbatim>\<open>Turn.run\<close> yields, of the \<^verbatim>\<open>ServerGeminiStreamEvent\<close> union.\<close>

datatype ServerGeminiStreamEvent =
    EvContent string
  | EvThought ThoughtSummary
  | EvToolCallRequest ToolCallRequestInfo
  | EvUserCancelled
  | EvError StructuredError

text \<open>What \<^verbatim>\<open>run\<close> reads of a response unit.\<close>

record Candidate =
  cand_content :: "Content option"

record GenerateContentResponse =
  gcr_candidates :: "Candidate list option"
  gcr_functionCalls :: "FunctionCall list option"

text \<open>
  What the engine takes from outside. The helpers of \<^verbatim>\<open>utils/\<close> are parameters; \<open>'e\<close>
  is the type of what the stream throws. \<open>env_dateNow k\<close> and \<open>env_randomHex k\<close> are
  \<^verbatim>\<open>Date.now()\<close> and \<^verbatim>\<open>Math.random().toString(16).slice(2)\<close> at the \<open>k\<close>-th backfill of
  the run. \<open>env_aborted n\<close> is \<^verbatim>\<open>signal.aborted\<close> as read once \<open>n\<close> units have been
  processed: at the check for the next unit, or in the \<^verbatim>\<open>catch\<close> block.
\<close>

record 'e turn_env =
  env_getResponseText :: "GenerateContentResponse \<Rightarrow> string option"
  env_toFriendlyError :: "'e \<Rightarrow> 'e"
  env_isUnauthorizedError :: "'e \<Rightarrow> bool"
  env_getErrorMessage :: "'e \<Rightarrow> string"
  env_errorStatus :: "'e \<Rightarrow> int option"
  env_dateNow :: "nat \<Rightarrow> nat"
  env_randomHex :: "nat \<Rightarrow> string"
  env_aborted :: "nat \<Rightarrow> bool"

text \<open>
  The fields of a \<^verbatim>\<open>Turn\<close>, the number of backfills made so far, and what was handed to
  \<^verbatim>\<open>reportError\<close>.
\<close>

record 'e turn_state =
  pendingToolCalls :: "ToolCallRequestInfo list"
  debugResponses :: "GenerateContentResponse list"
  backfills :: nat
  reported :: "'e list"


text \<open>The identifier a call without one is given.\<close>

definition backfilled_callId :: "string option \<Rightarrow> nat \<Rightarrow> string \<Rightarrow> string" where
  "backfilled_callId fnName now randomHex =
     template_string fnName @ ''-'' @ show_nat now @ ''-'' @ randomHex"

definition handlePendingFunctionCall ::
  "'e turn_env \<Rightarrow> FunctionCall \<Rightarrow> 'e turn_state \<Rightarrow> ServerGeminiStreamEvent \<times> 'e turn_state" where
  "handlePendingFunctionCall env fnCall st =
     (let callId =
            (case call_id fnCall of
               Some i \<Rightarrow> i
             | None \<Rightarrow> backfilled_callId (call_name fnCall)
                         (env_dateNow env (backfills st)) (env_randomHex env (backfills st)));
          toolCallRequest =
            \<lparr>tcr_callId = callId,
             tcr_name = (case call_name fnCall of
                           Some n \<Rightarrow> if n \<noteq> [] then n else ''undefined_tool_name''
                         | None \<Rightarrow> ''undefined_tool_name''),
             tcr_args = or_else (call_args fnCall) (JObj []),
             tcr_isClientInitiated = False\<rparr>
      in (EvToolCallRequest toolCallRequest,
          st\<lparr>pendingToolCalls := pendingToolCalls st @ [toolCallRequest],
             backfills := (if call_id fnCall = None then Suc (backfills st) else backfills st)\<rparr>))"

fun handle_function_calls ::
  "'e turn_env \<Rightarrow> FunctionCall list \<Rightarrow> 'e turn_state \<Rightarrow> ServerGeminiStreamEvent list \<times> 'e turn_state" where
  "handle_function_calls env [] st = ([], st)"
| "handle_function_calls env (fnCall # rest) st =
     (case handlePendingFunctionCall env fnCall st of
        (event, st1) \<Rightarrow>
          (case handle_function_calls env rest st1 of
             (events, st2) \<Rightarrow> (event # events, st2)))"

text \<open>
  The first match of \<^verbatim>\<open>/\*\*(.*?)\*\*/s\<close>: the text before the first \<^verbatim>\<open>**\<close>, the group up
  to the next \<^verbatim>\<open>**\<close>, and the text after it.
\<close>

fun split_at_stars :: "string \<Rightarrow> (string \<times> string) option" where
  "split_at_stars [] = None"
| "split_at_stars [c] = None"
| "split_at_stars (c # d # cs) =
     (if c = CHR ''*'' \<and> d = CHR ''*'' then Some ([], cs)
      else map_option (\<lambda>(b, a). (c # b, a)) (split_at_stars (d # cs)))"

definition match_bold :: "string \<Rightarrow> (string \<times> string \<times> string) option" where
  "match_bold rawText =
     (case split_at_stars rawText of
        None \<Rightarrow> None
      | Some (before, rest) \<Rightarrow>
          (case split_at_stars rest of
             None \<Rightarrow> None
           | Some (subject, after) \<Rightarrow> Some (before, subject, after)))"

definition thought_of :: "Part \<Rightarrow> ThoughtSummary" where
  "thought_of thoughtPart =
     (let rawText = (case part_text thoughtPart of Some t \<Rightarrow> t | None \<Rightarrow> '''')
      in case match_bold rawText of
           Some (before, subject, after) \<Rightarrow>
             \<lparr>thought_subject = trim subject, thought_description = trim (before @ after)\<rparr>
         | None \<Rightarrow> \<lparr>thought_subject = '''', thought_description = trim rawText\<rparr>)"

text \<open>\<^verbatim>\<open>resp.candidates?.[0]?.content?.parts?.[0]\<close>.\<close>

definition first_part :: "GenerateContentResponse \<Rightarrow> Part option" where
  "first_part resp =
     (case gcr_candidates resp of
        Some (candidate # _) \<Rightarrow>
          (case cand_content candidate of
             Some content \<Rightarrow>
               (case content_parts content of Some (part # _) \<Rightarrow> Some part | _ \<Rightarrow> None)
           | None \<Rightarrow> None)
      | _ \<Rightarrow> None)"

text \<open>
  The body of the \<^verbatim>\<open>for await\<close> loop after the cancellation check: a unit whose first
  part is a thought yields the thought and nothing else; any other unit yields its text,
  if \<^verbatim>\<open>getResponseText\<close> finds some, and then one request for each function call.
\<close>

definition content_events :: "'e turn_env \<Rightarrow> GenerateContentResponse \<Rightarrow> ServerGeminiStreamEvent list" where
  "content_events env resp =
     (case env_getResponseText env resp of
        Some text \<Rightarrow> if text \<noteq> [] then [EvContent text] else []
      | None \<Rightarrow> [])"

definition is_thought :: "Part option \<Rightarrow> bool" where
  "is_thought thoughtPart = (case thoughtPart of Some p \<Rightarrow> part_thought p = Some True | None \<Rightarrow> False)"

definition process_unit ::
  "'e turn_env \<Rightarrow> GenerateContentResponse \<Rightarrow> 'e turn_state \<Rightarrow> ServerGeminiStreamEvent list \<times> 'e turn_state" where
  "process_unit env resp st =
     (let st1 = st\<lparr>debugResponses := debugResponses st @ [resp]\<rparr> in
      if is_thought (first_part resp)
      then (map (\<lambda>p. EvThought (thought_of p)) (case first_part resp of Some p \<Rightarrow> [p] | None \<Rightarrow> []), st1)
      else
        (case handle_function_calls env
                (case gcr_functionCalls resp of Some fs \<Rightarrow> fs | None \<Rightarrow> []) st1 of
           (events, st2) \<Rightarrow> (content_events env resp @ events, st2)))"

text \<open>
  What the response stream does when the loop asks for the next unit: it delivers one or
  throws; the end of the list is the end of the stream. A failure of \<^verbatim>\<open>sendMessageStream\<close>
  itself is a stream that throws at once.
\<close>

datatype 'e stream_step = Unit GenerateContentResponse | Throws 'e

datatype 'e turn_outcome = Completed | Cancelled | Failed | Rethrown 'e

record 'e run_result =
  run_events :: "ServerGeminiStreamEvent list"
  run_units_read :: nat
  run_outcome :: "'e turn_outcome"
  run_state :: "'e turn_state"

text \<open>
  \<^verbatim>\<open>Turn.run\<close> from the \<open>n\<close>-th unit on: the events yielded, the number of units taken
  from the stream, how the run ended, and the turn afterwards.
\<close>

fun run_from :: "'e turn_env \<Rightarrow> 'e stream_step list \<Rightarrow> nat \<Rightarrow> 'e turn_state \<Rightarrow> 'e run_result" where
  "run_from env [] n st =
     \<lparr>run_events = [], run_units_read = n, run_outcome = Completed, run_state = st\<rparr>"
| "run_from env (Throws e # rest) n st =
     (let error = env_toFriendlyError env e in
      if env_isUnauthorizedError env error
      then \<lparr>run_events = [], run_units_read = n, run_outcome = Rethrown error, run_state = st\<rparr>
      else if env_aborted env n
      then \<lparr>run_events = [EvUserCancelled], run_units_read = n, run_outcome = Cancelled, run_state = st\<rparr>
      else \<lparr>run_events = [EvError \<lparr>se_message = env_getErrorMessage env error,
                                    se_status = env_errorStatus env error\<rparr>],
            run_units_read = n, run_outcome = Failed,
            run_state = st\<lparr>reported := reported st @ [error]\<rparr>\<rparr>)"
| "run_from env (Unit resp # rest) n st =
     (if env_aborted env n
      then \<lparr>run_events = [EvUserCancelled], run_units_read = Suc n, run_outcome = Cancelled, run_state = st\<rparr>
      else (case process_unit env resp st of
              (events, st1) \<Rightarrow>
                (let r = run_from env rest (Suc n) st1
                 in r\<lparr>run_events := events @ run_events r\<rparr>)))"

definition run :: "'e turn_env \<Rightarrow> 'e stream_step list \<Rightarrow> 'e turn_state \<Rightarrow> 'e run_result" where
  "run env responseStream st = run_from env responseStream 0 st"

section \<open>Tool call executor\<close>

text \<open>
  \<^verbatim>\<open>PartListUnion\<close>, the type of \<^verbatim>\<open>responseParts\<close>. \<^verbatim>\<open>ToolResultDisplay\<close> is a string or
  something else that a tool returns, of a type \<open>'d\<close> that the executor only passes on.
\<close>

datatype PartUnion = PString string | PPart Part

datatype PartListUnion = PartList "PartUnion list" | SinglePart PartUnion

datatype 'd ToolResultDisplay = DisplayString string | DisplayOther 'd

record 'd ToolCallResponseInfo =
  tresp_callId :: string
  tresp_responseParts :: PartListUnion
  tresp_resultDisplay :: "'d ToolResultDisplay option"
  tresp_error :: "js_error option"

record ('c, 'd) ToolResult =
  llmContent :: 'c
  returnDisplay :: "'d ToolResultDisplay option"

record AbortSignal =
  sig_aborted :: bool

text \<open>A tool is its \<^verbatim>\<open>execute\<close>, which returns a result or throws; the registry is \<^verbatim>\<open>getTool\<close>.\<close>

type_synonym ('c, 'd) Tool = "json \<Rightarrow> AbortSignal \<Rightarrow> js_error + ('c, 'd) ToolResult"

type_synonym ('c, 'd) ToolRegistry = "string \<rightharpoonup> ('c, 'd) Tool"

text \<open>The record handed to \<^verbatim>\<open>logToolCall\<close>.\<close>

record ToolCallEvent =
  event_name :: string
  event_timestamp :: string
  function_name :: string
  function_args :: json
  duration_ms :: int
  ev_success :: bool
  ev_error :: "string option"

text \<open>
  What the executor takes from outside: \<open>clock_now k\<close> is the \<open>k\<close>-th \<^verbatim>\<open>Date.now()\<close> of the
  call, \<open>clock_iso k\<close> the \<open>k\<close>-th \<^verbatim>\<open>new Date().toISOString()\<close>, and
  \<^verbatim>\<open>convertToFunctionResponse\<close> of the tool scheduler, which may throw.
\<close>

record 'c exec_env =
  clock_now :: "nat \<Rightarrow> int"
  clock_iso :: "nat \<Rightarrow> string"
  convertToFunctionResponse :: "string \<Rightarrow> string \<Rightarrow> 'c \<Rightarrow> js_error + PartListUnion"

text \<open>\<^verbatim>\<open>e instanceof Error ? e : new Error(String(e))\<close>.\<close>

fun as_Error :: "js_error \<Rightarrow> js_error" where
  "as_Error (Thrown s) = Error s"
| "as_Error e = e"

text \<open>The part \<^verbatim>\<open>{functionResponse: {id, name, response}}\<close>.\<close>

definition functionResponse_part :: "string \<Rightarrow> string \<Rightarrow> json \<Rightarrow> Part" where
  "functionResponse_part callId toolName response =
     \<lparr>part_text = None, part_thought = None, part_functionCall = None,
      part_functionResponse = Some \<lparr>fr_id = Some callId, fr_name = Some toolName, fr_response = Some response\<rparr>,
      part_inlineData = None\<rparr>"

text \<open>The structured failure that the not-found branch and the \<^verbatim>\<open>catch\<close> block both return.\<close>

definition error_response :: "ToolCallRequestInfo \<Rightarrow> js_error \<Rightarrow> 'd ToolCallResponseInfo" where
  "error_response toolCallRequest err =
     \<lparr>tresp_callId = tcr_callId toolCallRequest,
      tresp_responseParts =
        PartList [PPart (functionResponse_part (tcr_callId toolCallRequest) (tcr_name toolCallRequest)
                           (JObj [(''error'', JStr (error_message err))]))],
      tresp_resultDisplay = Some (DisplayString (error_message err)),
      tresp_error = Some err\<rparr>"

text \<open>
  The failure record: the duration is the \<open>k\<close>-th clock reading minus the first, the
  time stamp is the \<open>j\<close>-th \<^verbatim>\<open>new Date()\<close>.
\<close>

definition failure_event ::
  "'c exec_env \<Rightarrow> nat \<Rightarrow> nat \<Rightarrow> ToolCallRequestInfo \<Rightarrow> js_error \<Rightarrow> ToolCallEvent" where
  "failure_event env k j toolCallRequest err =
     \<lparr>event_name = ''tool_call'',
      event_timestamp = clock_iso env j,
      function_name = tcr_name toolCallRequest,
      function_args = tcr_args toolCallRequest,
      duration_ms = clock_now env k - clock_now env 0,
      ev_success = False,
      ev_error = Some (error_message err)\<rparr>"

definition success_event :: "'c exec_env \<Rightarrow> ToolCallRequestInfo \<Rightarrow> ToolCallEvent" where
  "success_event env toolCallRequest =
     \<lparr>event_name = ''tool_call'',
      event_timestamp = clock_iso env 0,
      function_name = tcr_name toolCallRequest,
      function_args = tcr_args toolCallRequest,
      duration_ms = clock_now env 1 - clock_now env 0,
      ev_success = True,
      ev_error = None\<rparr>"

text \<open>
  \<^verbatim>\<open>executeToolCall\<close>: the response and the telemetry records logged, in order. The
  statements modelled as throwing (\<^verbatim>\<open>tool.execute\<close>, \<^verbatim>\<open>convertToFunctionResponse\<close>) are
  inside the \<^verbatim>\<open>try\<close> block. \<^verbatim>\<open>getTool\<close> and \<^verbatim>\<open>logToolCall\<close>, which are called outside
  it, are taken to return, and a thrown value that is not an \<^verbatim>\<open>Error\<close> to have a string
  coercion; so the function has no throwing branch of its own.
\<close>

definition executeToolCall ::
  "'c exec_env \<Rightarrow> ToolCallRequestInfo \<Rightarrow> ('c, 'd) ToolRegistry \<Rightarrow> AbortSignal option \<Rightarrow>
   'd ToolCallResponseInfo \<times> ToolCallEvent list" where
  "executeToolCall env toolCallRequest toolRegistry abortSignal =
     (case toolRegistry (tcr_name toolCallRequest) of
        None \<Rightarrow>
          (let err = Error (''Tool '' @ [CHR 0x22] @ tcr_name toolCallRequest @ [CHR 0x22] @
                            '' not found in registry.'')
           in (error_response toolCallRequest err, [failure_event env 1 0 toolCallRequest err]))
      | Some tool \<Rightarrow>
          (let effectiveAbortSignal =
                 (case abortSignal of Some s \<Rightarrow> s | None \<Rightarrow> \<lparr>sig_aborted = False\<rparr>)
           in case tool (tcr_args toolCallRequest) effectiveAbortSignal of
                Inl e \<Rightarrow>
                  (error_response toolCallRequest (as_Error e),
                   [failure_event env 1 0 toolCallRequest (as_Error e)])
              | Inr toolResult \<Rightarrow>
                  (case convertToFunctionResponse env (tcr_name toolCallRequest)
                          (tcr_callId toolCallRequest) (llmContent toolResult) of
                     Inl e \<Rightarrow>
                       (error_response toolCallRequest (as_Error e),
                        [success_event env toolCallRequest,
                         failure_event env 2 1 toolCallRequest (as_Error e)])
                   | Inr response \<Rightarrow>
                       (\<lparr>tresp_callId = tcr_callId toolCallRequest,
                         tresp_responseParts = response,
                         tresp_resultDisplay = returnDisplay toolResult,
                         tresp_error = None\<rparr>,
                        [success_event env toolCallRequest]))))"

text \<open>An environment, a request and a tool that throws, to run the executor on.\<close>

definition example_exec_env :: "unit exec_env" where
  "example_exec_env =
     \<lparr>clock_now = (\<lambda>k. 1000 + 5 * int k),
      clock_iso = (\<lambda>k. ''2025-07-01T00:00:00.000Z''),
      convertToFunctionResponse = (\<lambda>toolName callId content. Inr (PartList []))\<rparr>"

definition example_request :: "string \<Rightarrow> ToolCallRequestInfo" where
  "example_request toolName =
     \<lparr>tcr_callId = ''call-1'', tcr_name = toolName, tcr_args = JObj [], tcr_isClientInitiated = False\<rparr>"

definition throwing_tool :: "(unit, unit) Tool" where
  "throwing_tool args signal = Inl (Thrown ''boom'')"





text \<open>
  A non-streaming chat completion whose message carries the tool calls \<open>calls\<close>, each
  given by its id, its function name and its argument string.
\<close>

definition chat_completion :: "(string \<times> string \<times> string) list \<Rightarrow> json" where
  "chat_completion calls =
     JObj [(''choices'', JArr [JObj
       [(''message'', JObj
          [(''content'', JNull),
           (''tool_calls'', JArr (map (\<lambda>(i, n, s).
              JObj [(''id'', JStr i), (''type'', JStr ''function''),
                    (''function'', JObj [(''name'', JStr n), (''arguments'', JStr s)])]) calls))]),
        (''finish_reason'', JStr ''tool_calls'')]])]"

text \<open>Argument strings cut off in the middle, which no JSON parser accepts.\<close>

definition truncated_arguments :: string where
  \<open>truncated_arguments = ''{"q":''\<close>

text \<open>The bytes of a list of lines, each ended by a line feed.\<close>

definition unlines :: "string list \<Rightarrow> string" where
  "unlines ls = concat (map (\<lambda>l. l @ [CHR 0x0A]) ls)"

section \<open>Shapes of stream events\<close>

text \<open>
  What the Anthropic adapter reads of an event. A \<^verbatim>\<open>content_block_start\<close> event for block
  \<open>idx\<close> that opens a tool use with the given id and name; a \<^verbatim>\<open>content_block_delta\<close>
  event for block \<open>idx\<close> whose delta is an \<^verbatim>\<open>input_json_delta\<close> with the fragment
  \<open>frag\<close>; a \<^verbatim>\<open>message_stop\<close> event. An absent index reads as 0, an absent fragment as
  the empty string, as in the adapter.
\<close>

definition is_tool_use_start :: "json \<Rightarrow> int \<Rightarrow> json \<Rightarrow> json \<Rightarrow> bool" where
  "is_tool_use_start ev idx ident nm =
     (get_prop ev ''type'' = Some (JStr ''content_block_start'') \<and>
      or_else (get_prop ev ''index'') (JNum 0) = JNum idx \<and>
      (case get_prop ev ''content_block'' of
         Some cb \<Rightarrow> get_prop cb ''type'' = Some (JStr ''tool_use'') \<and>
                   get_prop cb ''id'' = Some ident \<and> get_prop cb ''name'' = Some nm
       | None \<Rightarrow> False))"

definition is_input_json_delta :: "json \<Rightarrow> int \<Rightarrow> string \<Rightarrow> bool" where
  "is_input_json_delta ev idx frag =
     (get_prop ev ''type'' = Some (JStr ''content_block_delta'') \<and>
      or_else (get_prop ev ''index'') (JNum 0) = JNum idx \<and>
      (case get_prop ev ''delta'' of
         Some d \<Rightarrow> get_prop d ''type'' = Some (JStr ''input_json_delta'') \<and>
                  or_else (get_prop d ''partial_json'') (JStr '''') = JStr frag
       | None \<Rightarrow> False))"

definition is_message_stop :: "json \<Rightarrow> bool" where
  "is_message_stop ev = (get_prop ev ''type'' = Some (JStr ''message_stop''))"

text \<open>
  The lines of the Anthropic stream of one tool use whose input arrives in two
  fragments, with the payloads of its four events, and the bytes of such a stream as a
  backend sends them.
\<close>

definition tool_use_lines :: "string \<Rightarrow> string \<Rightarrow> string \<Rightarrow> string \<Rightarrow> string list" where
  "tool_use_lines p1 p2 p3 p4 =
     [''event: content_block_start'', ''data: '' @ p1, '''',
      ''event: content_block_delta'', ''data: '' @ p2, '''',
      ''event: content_block_delta'', ''data: '' @ p3, '''',
      ''event: message_stop'', ''data: '' @ p4, '''']"

definition lookup_fragment :: string where
  \<open>lookup_fragment = ''{"x":1''\<close>

definition lookup_start_payload :: string where
  \<open>lookup_start_payload =
     ''{"type":"content_block_start","index":0,"content_block":{"type":"tool_use","id":"t1","name":"lookup","input":{}}}''\<close>

definition lookup_delta1_payload :: string where
  \<open>lookup_delta1_payload =
     ''{"type":"content_block_delta","index":0,"delta":{"type":"input_json_delta","partial_json":"{'' @
     [CHR 0x5C] @ ''"x'' @ [CHR 0x5C] @ ''":1"}}''\<close>

definition lookup_delta2_payload :: string where
  \<open>lookup_delta2_payload =
     ''{"type":"content_block_delta","index":0,"delta":{"type":"input_json_delta","partial_json":"}"}}''\<close>

definition lookup_stop_payload :: string where
  \<open>lookup_stop_payload = ''{"type":"message_stop"}''\<close>

definition lookup_bytes :: string where
  "lookup_bytes =
     unlines (tool_use_lines lookup_start_payload lookup_delta1_payload lookup_delta2_payload
                lookup_stop_payload)"

definition ok_response :: "string list \<Rightarrow> HttpResponse" where
  "ok_response cs =
     \<lparr>http_ok = True, http_status = 200, http_statusText = ''OK'', http_body = Some (map Chunk cs)\<rparr>"

section \<open>Shapes of OpenAI-compatible streams\<close>

text \<open>
  What one chunk of a chat-completions stream says about a tool call: the positional
  index and, where the chunk has them, the call id, the function name and a fragment of
  the argument string.
\<close>

record tool_delta =
  td_index :: nat
  td_id :: "string option"
  td_name :: "string option"
  td_args :: "string option"

text \<open>
  A parsed chunk whose first choice has a delta with no text and exactly one tool call,
  which reads as \<open>d\<close>; an absent index reads as 0, as in the adapter. A parsed chunk whose
  first choice has a delta with the non-empty text \<open>t\<close> and no tool calls.
\<close>

definition chunk_delta :: "json \<Rightarrow> json option" where
  "chunk_delta ev =
     (case get_prop ev ''choices'' of
        Some (JArr (choice # others)) \<Rightarrow> get_prop choice ''delta''
      | _ \<Rightarrow> None)"

definition single_tool_call :: "json \<Rightarrow> json option" where
  "single_tool_call delta =
     (case get_prop delta ''tool_calls'' of Some (JArr [toolCall]) \<Rightarrow> Some toolCall | _ \<Rightarrow> None)"

definition no_tool_calls :: "json \<Rightarrow> bool" where
  "no_tool_calls delta =
     (case get_prop delta ''tool_calls'' of Some (JArr tool_calls) \<Rightarrow> False | _ \<Rightarrow> True)"

definition is_tool_call_chunk :: "json \<Rightarrow> tool_delta \<Rightarrow> bool" where
  "is_tool_call_chunk ev d =
     (case chunk_delta ev of
        Some delta \<Rightarrow>
          \<not> truthy (get_prop delta ''content'') \<and>
          (case single_tool_call delta of
             Some toolCall \<Rightarrow>
               or_else (get_prop toolCall ''index'') (JNum 0) = JNum (int (td_index d)) \<and>
               get_prop toolCall ''id'' = map_option JStr (td_id d) \<and>
               (case get_prop toolCall ''function'' of
                  Some fn \<Rightarrow>
                    truthy (Some fn) \<and>
                    get_prop fn ''name'' = map_option JStr (td_name d) \<and>
                    get_prop fn ''arguments'' = map_option JStr (td_args d)
                | None \<Rightarrow> False)
           | None \<Rightarrow> False)
      | None \<Rightarrow> False)"

definition is_text_chunk :: "json \<Rightarrow> string \<Rightarrow> bool" where
  "is_text_chunk ev t =
     (case chunk_delta ev of
        Some delta \<Rightarrow> get_prop delta ''content'' = Some (JStr t) \<and> t \<noteq> [] \<and> no_tool_calls delta
      | None \<Rightarrow> False)"

text \<open>
  What a line of the stream amounts to: a tool-call chunk, a text chunk, or a line that
  the adapter skips (no \<^verbatim>\<open>data: \<close> prefix, or a payload that does not parse). The
  terminator line is none of these.
\<close>

datatype stream_item = ToolDelta tool_delta | TextDelta string | Skipped

fun carries :: "json_parser \<Rightarrow> string \<Rightarrow> stream_item \<Rightarrow> bool" where
  "carries JSON_parse line (ToolDelta d) =
     (startsWith line ''data: '' \<and> slice line 6 \<noteq> ''[DONE]'' \<and>
      (case JSON_parse (slice line 6) of Some ev \<Rightarrow> is_tool_call_chunk ev d | None \<Rightarrow> False))"
| "carries JSON_parse line (TextDelta t) =
     (startsWith line ''data: '' \<and> slice line 6 \<noteq> ''[DONE]'' \<and>
      (case JSON_parse (slice line 6) of Some ev \<Rightarrow> is_text_chunk ev t | None \<Rightarrow> False))"
| "carries JSON_parse line Skipped =
     (\<not> startsWith line ''data: '' \<or> (slice line 6 \<noteq> ''[DONE]'' \<and> JSON_parse (slice line 6) = None))"

definition tool_deltas :: "stream_item list \<Rightarrow> tool_delta list" where
  "tool_deltas items = concat (map (\<lambda>x. case x of ToolDelta d \<Rightarrow> [d] | _ \<Rightarrow> []) items)"

definition text_deltas :: "stream_item list \<Rightarrow> string list" where
  "text_deltas items = concat (map (\<lambda>x. case x of TextDelta t \<Rightarrow> [t] | _ \<Rightarrow> []) items)"

text \<open>
  The deltas of a stream are well formed when each of them either opens an index not
  seen before, with a non-empty id that no earlier delta has, or continues an index
  already open, with no id or with the id of the delta that opened it.
\<close>

definition continues :: "tool_delta list \<Rightarrow> tool_delta \<Rightarrow> bool" where
  "continues earlier d =
     (case find (\<lambda>e. td_index e = td_index d) earlier of
        None \<Rightarrow> (case td_id d of
                   Some c \<Rightarrow> c \<noteq> [] \<and> Some c \<notin> td_id ` set earlier
                 | None \<Rightarrow> False)
      | Some opener \<Rightarrow> td_id d = None \<or> td_id d = td_id opener)"

fun well_formed_from :: "tool_delta list \<Rightarrow> tool_delta list \<Rightarrow> bool" where
  "well_formed_from earlier [] = True"
| "well_formed_from earlier (d # ds) = (continues earlier d \<and> well_formed_from (earlier @ [d]) ds)"

definition well_formed :: "tool_delta list \<Rightarrow> bool" where
  "well_formed ds = well_formed_from [] ds"

text \<open>
  The logical tool calls that a list of deltas describes: one for each index, in the
  order in which the indices first appear, with the id of the delta that opened the
  index, the last non-empty name given for it, and its argument fragments joined in
  order.
\<close>

record call_entry =
  ce_index :: nat
  ce_id :: string
  ce_name :: string
  ce_args :: string

definition indices :: "tool_delta list \<Rightarrow> nat list" where
  "indices ds = rev (remdups (rev (map td_index ds)))"

definition deltas_of :: "nat \<Rightarrow> tool_delta list \<Rightarrow> tool_delta list" where
  "deltas_of i ds = filter (\<lambda>d. td_index d = i) ds"

definition opt_string :: "string option \<Rightarrow> string" where
  "opt_string s = (case s of Some t \<Rightarrow> t | None \<Rightarrow> [])"

definition id_of :: "nat \<Rightarrow> tool_delta list \<Rightarrow> string" where
  "id_of i ds =
     (case find (\<lambda>d. td_index d = i) ds of Some opener \<Rightarrow> opt_string (td_id opener) | None \<Rightarrow> [])"

definition name_of :: "nat \<Rightarrow> tool_delta list \<Rightarrow> string" where
  "name_of i ds =
     (case rev (filter (\<lambda>n. n \<noteq> []) (List.map_filter td_name (deltas_of i ds))) of
        [] \<Rightarrow> []
      | n # ns \<Rightarrow> n)"

definition args_of :: "nat \<Rightarrow> tool_delta list \<Rightarrow> string" where
  "args_of i ds = concat (List.map_filter td_args (deltas_of i ds))"

definition entries_of :: "tool_delta list \<Rightarrow> call_entry list" where
  "entries_of ds =
     map (\<lambda>i. \<lparr>ce_index = i, ce_id = id_of i ds, ce_name = name_of i ds, ce_args = args_of i ds\<rparr>)
       (indices ds)"

text \<open>The descriptor of a logical tool call: its arguments parsed, or the empty object.\<close>

definition completed_call :: "json_parser \<Rightarrow> call_entry \<Rightarrow> GeminiFunctionCall" where
  "completed_call JSON_parse e =
     \<lparr>fc_id = Some (JStr (ce_id e)),
      fc_name = Some (JStr (ce_name e)),
      fc_args = (if ce_args e = [] then JObj []
                 else case JSON_parse (ce_args e) of Some v \<Rightarrow> v | None \<Rightarrow> JObj [])\<rparr>"

text \<open>
  The two maps of the adapter that hold a list of logical tool calls, and what one more
  delta makes of such a list.
\<close>

definition accumulator_entry :: "call_entry \<Rightarrow> json \<times> oa_tool_call" where
  "accumulator_entry e =
     (JStr (ce_id e), \<lparr>oa_id = JStr (ce_id e), oa_name = JStr (ce_name e), oa_arguments = ce_args e\<rparr>)"

definition accumulator_of :: "call_entry list \<Rightarrow> oa_accumulator" where
  "accumulator_of es = map accumulator_entry es"

definition index_map_of :: "call_entry list \<Rightarrow> oa_index_map" where
  "index_map_of es = map (\<lambda>e. (JNum (int (ce_index e)), JStr (ce_id e))) es"

text \<open>
  A delta that such a list accepts: it continues the call of its index, with no id or
  with that call's id, or it opens a new index with a non-empty id that no call has.
\<close>

definition accepts :: "call_entry list \<Rightarrow> tool_delta \<Rightarrow> bool" where
  "accepts es d =
     (if td_index d \<in> ce_index ` set es
      then \<forall>e \<in> set es. ce_index e = td_index d \<longrightarrow> td_id d = None \<or> td_id d = Some (ce_id e)
      else case td_id d of Some c \<Rightarrow> c \<noteq> [] \<and> c \<notin> ce_id ` set es | None \<Rightarrow> False)"

definition add_delta :: "call_entry list \<Rightarrow> tool_delta \<Rightarrow> call_entry list" where
  "add_delta es d =
     (if td_index d \<in> ce_index ` set es
      then map (\<lambda>e. if ce_index e = td_index d
                    then e\<lparr>ce_name := (if opt_string (td_name d) \<noteq> [] then opt_string (td_name d)
                                       else ce_name e),
                           ce_args := ce_args e @ opt_string (td_args d)\<rparr>
                    else e) es
      else es @ [\<lparr>ce_index = td_index d, ce_id = opt_string (td_id d),
                  ce_name = opt_string (td_name d), ce_args = opt_string (td_args d)\<rparr>])"

text \<open>
  The stream of a search for cats: a chunk that opens the tool call of index 0 with the
  id c1 and the name search, two chunks with the fragments \<^verbatim>\<open>{"q":\<close> and \<^verbatim>\<open>"cats"}\<close> of its
  argument string, each followed by a blank line, then \<^verbatim>\<open>[DONE]\<close> and a blank line.
\<close>

definition search_open_line :: string where
  \<open>search_open_line =
     ''data: {"choices":[{"delta":{"tool_calls":[{"index":0,"id":"c1","function":{"name":"search"}}]}}]}''\<close>

definition search_args1_line :: string where
  \<open>search_args1_line =
     ''data: {"choices":[{"delta":{"tool_calls":[{"index":0,"function":{"arguments":"{'' @
     [CHR 0x5C] @ ''"q'' @ [CHR 0x5C] @ ''":"}}]}}]}''\<close>

definition search_args2_line :: string where
  \<open>search_args2_line =
     ''data: {"choices":[{"delta":{"tool_calls":[{"index":0,"function":{"arguments":"'' @
     [CHR 0x5C] @ ''"cats'' @ [CHR 0x5C] @ ''"}"}}]}}]}''\<close>

definition search_lines :: "string list" where
  "search_lines = [search_open_line, [], search_args1_line, [], search_args2_line, []]"

definition search_bytes :: string where
  "search_bytes = unlines (search_lines @ [''data: [DONE]'']) @ [CHR 0x0A]"

definition search_items :: "stream_item list" where
  \<open>search_items =
     [ToolDelta \<lparr>td_index = 0, td_id = Some ''c1'', td_name = Some ''search'', td_args = None\<rparr>,
      Skipped,
      ToolDelta \<lparr>td_index = 0, td_id = None, td_name = None, td_args = Some ''{"q":''\<rparr>,
      Skipped,
      ToolDelta \<lparr>td_index = 0, td_id = None, td_name = None, td_args = Some ''"cats"}''\<rparr>,
      Skipped]\<close>

text \<open>
  The same stream with every line ended by a carriage return and a line feed, as
  server-sent events may be framed, and the argument string of its tool call.
\<close>

definition crlf_lines :: "string list \<Rightarrow> string" where
  "crlf_lines ls = concat (map (\<lambda>l. l @ [CHR 0x0D, CHR 0x0A]) ls)"

definition search_crlf_bytes :: string where
  "search_crlf_bytes = crlf_lines (search_lines @ [''data: [DONE]'', []])"

definition search_arguments :: string where
  \<open>search_arguments = ''{"q":"cats"}''\<close>

section \<open>Configuration\<close>

text \<open>\<^verbatim>\<open>ContentGeneratorConfig\<close> of \<^verbatim>\<open>core/contentGenerator.ts\<close>; \<open>None\<close> is an absent field.
  Field names carry the prefix \<open>cfg_\<close>, since a record field is a global constant.\<close>

record ContentGeneratorConfig =
  cfg_model :: string
  cfg_apiKey :: "string option"
  cfg_vertexai :: "bool option"
  cfg_authType :: "string option"
  cfg_baseUrl :: "string option"
  cfg_apiVersion :: "string option"
  cfg_customHeaders :: "(string \<times> string) list option"
  cfg_timeout :: "int option"

section \<open>Adapter registry (\<^verbatim>\<open>adapters/index.ts\<close>)\<close>

text \<open>
  The value \<^verbatim>\<open>createCustomContentGenerator\<close> returns: one of the three built-in adapter
  classes applied to the configuration, or the instance \<open>'g\<close> that a registered
  constructor built.
\<close>

datatype 'g ContentGenerator =
    OpenAICompatibleContentGenerator ContentGeneratorConfig
  | AnthropicContentGenerator ContentGeneratorConfig
  | AzureContentGenerator ContentGeneratorConfig
  | Registered 'g

text \<open>
  \<^verbatim>\<open>globalContentGeneratorRegistry\<close>: a \<^verbatim>\<open>Map\<close> from selector to constructor. The selector
  is the runtime string of the \<^verbatim>\<open>AuthType\<close> enum.
\<close>

type_synonym 'g registry = "string \<rightharpoonup> (ContentGeneratorConfig \<Rightarrow> 'g)"

definition registerContentGenerator ::
  "'g registry \<Rightarrow> string \<Rightarrow> (ContentGeneratorConfig \<Rightarrow> 'g) \<Rightarrow> 'g registry" where
  "registerContentGenerator reg authType generatorClass = reg(authType \<mapsto> generatorClass)"

definition createCustomContentGenerator ::
  "'g registry \<Rightarrow> string \<Rightarrow> ContentGeneratorConfig \<Rightarrow> js_error + 'g ContentGenerator" where
  "createCustomContentGenerator reg authType config =
     (if authType = ''openai-compatible'' then Inr (OpenAICompatibleContentGenerator config)
      else if authType = ''local-llm'' then Inr (OpenAICompatibleContentGenerator config)
      else if authType = ''anthropic'' then Inr (AnthropicContentGenerator config)
      else if authType = ''azure'' then Inr (AzureContentGenerator config)
      else (case reg authType of
              Some GeneratorClass \<Rightarrow> Inr (Registered (GeneratorClass config))
            | None \<Rightarrow> Inl (Error (''No content generator available for auth type: '' @ authType))))"

definition builtin_selectors :: "string set" where
  "builtin_selectors = {''openai-compatible'', ''local-llm'', ''anthropic'', ''azure''}"

text \<open>A configuration to run the factory on.\<close>

definition example_config :: ContentGeneratorConfig where
  "example_config =
     \<lparr>cfg_model = ''gpt-4.1'', cfg_apiKey = Some ''k'', cfg_vertexai = None,
      cfg_authType = Some ''openai-compatible'', cfg_baseUrl = None, cfg_apiVersion = None,
      cfg_customHeaders = None, cfg_timeout = None\<rparr>"

section \<open>Embeddings on the Anthropic adapter\<close>

text \<open>
  \<^verbatim>\<open>AnthropicContentGenerator.embedContent\<close> ignores its request and throws. The request
  and the response type are left open: no field of either is read or built.
\<close>

definition anthropic_embedContent :: "'req \<Rightarrow> js_error + 'resp" where
  "anthropic_embedContent request = Inl (Error ''Anthropic does not support embeddings'')"

section \<open>Theorems\<close>

text \<open>
  Claim C9. Every embedding request to the Anthropic adapter fails with the explicit error
  "Anthropic does not support embeddings"; no request yields a result of any kind, so
  neither a zero vector nor an empty result is ever returned.
\<close>

theorem anthropic_embed_unsupported:
  "anthropic_embedContent req = Inl (Error ''Anthropic does not support embeddings'')
   \<and> (\<nexists>r. anthropic_embedContent req = Inr r)"
  by (simp add: anthropic_embedContent_def)

text \<open>
  Claim C10. Built-in selectors shadow runtime registrations. For each of the selectors
  openai-compatible, local-llm, anthropic and azure the factory returns the built-in
  adapter whatever the registry holds, and registering a constructor under a built-in
  selector changes the resolution of no selector at all. The registry is consulted
  exactly for the selectors outside the built-in set: a registered one resolves to the
  registered constructor applied to the configuration, and an unregistered one fails with
  an error whose message ends with the selector.
\<close>

theorem builtin_selectors_shadow_registry:
  "createCustomContentGenerator reg ''openai-compatible'' cfg = Inr (OpenAICompatibleContentGenerator cfg)
   \<and> createCustomContentGenerator reg ''local-llm'' cfg = Inr (OpenAICompatibleContentGenerator cfg)
   \<and> createCustomContentGenerator reg ''anthropic'' cfg = Inr (AnthropicContentGenerator cfg)
   \<and> createCustomContentGenerator reg ''azure'' cfg = Inr (AzureContentGenerator cfg)
   \<and> (s \<in> builtin_selectors \<longrightarrow>
        createCustomContentGenerator (registerContentGenerator reg s g) s' cfg
          = createCustomContentGenerator reg s' cfg)
   \<and> (s \<notin> builtin_selectors \<longrightarrow>
        createCustomContentGenerator reg s cfg =
          (case reg s of
             Some c \<Rightarrow> Inr (Registered (c cfg))
           | None \<Rightarrow> Inl (Error (''No content generator available for auth type: '' @ s))))"
  by (auto simp: createCustomContentGenerator_def registerContentGenerator_def
      builtin_selectors_def)

theorem builtin_selectors_shadow_registry_witness:
  "''azure'' \<in> builtin_selectors \<and> ''my-llm'' \<notin> builtin_selectors
   \<and> createCustomContentGenerator
         (registerContentGenerator (Map.empty :: nat registry) ''azure'' (\<lambda>c. 7))
         ''azure'' example_config
       = Inr (AzureContentGenerator example_config)
   \<and> createCustomContentGenerator (Map.empty :: nat registry) ''my-llm'' example_config
       = Inl (Error ''No content generator available for auth type: my-llm'')
   \<and> createCustomContentGenerator
         (registerContentGenerator (Map.empty :: nat registry) ''my-llm'' (\<lambda>c. 7))
         ''my-llm'' example_config
       = Inr (Registered 7)"
proof -
  have b: "''azure'' \<in> builtin_selectors" and n: "''my-llm'' \<notin> builtin_selectors"
    by (simp_all add: builtin_selectors_def)
  note t1 = builtin_selectors_shadow_registry
    [of "Map.empty :: nat registry" example_config "''azure''" "\<lambda>c. 7" "''azure''"]
  note t2 = builtin_selectors_shadow_registry
    [of "Map.empty :: nat registry" example_config "''my-llm''" "\<lambda>c. 7" "''my-llm''"]
  note t3 = builtin_selectors_shadow_registry
    [of "registerContentGenerator (Map.empty :: nat registry) ''my-llm'' (\<lambda>c. 7)"
        example_config "''my-llm''" "\<lambda>c. 7" "''my-llm''"]
  from b n t1 t2 t3 show ?thesis
    by (simp add: registerContentGenerator_def)
qed

text \<open>
  Claim C5. A request for a tool that the registry does not hold is answered, not raised:
  the response carries the request's call id, one part, whose function response has the
  request's call id and name and as response the object with the single key error and the
  message Tool "<name>" not found in registry., the same message as result display, and
  an error field that is set. A tool whose execute throws is answered in the same shape
  with the thrown error's message (the string coercion of a thrown value that is not an
  Error). One failed telemetry record is logged in either case. The registry lookup and
  the telemetry logger are taken to return.
\<close>

theorem executeToolCall_failure_is_structured:
  "(toolRegistry (tcr_name req) = None \<longrightarrow>
      executeToolCall env req toolRegistry abortSignal =
        (\<lparr>tresp_callId = tcr_callId req,
          tresp_responseParts =
            PartList [PPart
              \<lparr>part_text = None, part_thought = None, part_functionCall = None,
               part_functionResponse = Some
                 \<lparr>fr_id = Some (tcr_callId req), fr_name = Some (tcr_name req),
                  fr_response = Some (JObj [(''error'',
                    JStr (''Tool '' @ [CHR 0x22] @ tcr_name req @ [CHR 0x22] @
                          '' not found in registry.''))])\<rparr>,
               part_inlineData = None\<rparr>],
          tresp_resultDisplay =
            Some (DisplayString (''Tool '' @ [CHR 0x22] @ tcr_name req @ [CHR 0x22] @
                                 '' not found in registry.'')),
          tresp_error =
            Some (Error (''Tool '' @ [CHR 0x22] @ tcr_name req @ [CHR 0x22] @
                         '' not found in registry.''))\<rparr>,
         [failure_event env 1 0 req
            (Error (''Tool '' @ [CHR 0x22] @ tcr_name req @ [CHR 0x22] @ '' not found in registry.''))]))
   \<and> (toolRegistry (tcr_name req) = Some tool \<and>
        tool (tcr_args req) (case abortSignal of Some s \<Rightarrow> s | None \<Rightarrow> \<lparr>sig_aborted = False\<rparr>) = Inl e \<longrightarrow>
      executeToolCall env req toolRegistry abortSignal =
        (\<lparr>tresp_callId = tcr_callId req,
          tresp_responseParts =
            PartList [PPart
              \<lparr>part_text = None, part_thought = None, part_functionCall = None,
               part_functionResponse = Some
                 \<lparr>fr_id = Some (tcr_callId req), fr_name = Some (tcr_name req),
                  fr_response = Some (JObj [(''error'', JStr (error_message e))])\<rparr>,
               part_inlineData = None\<rparr>],
          tresp_resultDisplay = Some (DisplayString (error_message e)),
          tresp_error = Some (as_Error e)\<rparr>,
         [failure_event env 1 0 req (as_Error e)])
      \<and> error_message (as_Error e) = error_message e)"
  by (cases e)
     (simp_all add: executeToolCall_def error_response_def functionResponse_part_def Let_def)

theorem executeToolCall_failure_is_structured_witness:
  "executeToolCall example_exec_env (example_request ''foo'') (Map.empty :: (unit, unit) ToolRegistry) None =
     (\<lparr>tresp_callId = ''call-1'',
       tresp_responseParts =
         PartList [PPart
           \<lparr>part_text = None, part_thought = None, part_functionCall = None,
            part_functionResponse = Some
              \<lparr>fr_id = Some ''call-1'', fr_name = Some ''foo'',
               fr_response = Some (JObj [(''error'',
                 JStr (''Tool '' @ [CHR 0x22] @ ''foo'' @ [CHR 0x22] @ '' not found in registry.''))])\<rparr>,
            part_inlineData = None\<rparr>],
       tresp_resultDisplay =
         Some (DisplayString (''Tool '' @ [CHR 0x22] @ ''foo'' @ [CHR 0x22] @ '' not found in registry.'')),
       tresp_error = Some (Error (''Tool '' @ [CHR 0x22] @ ''foo'' @ [CHR 0x22] @ '' not found in registry.''))\<rparr>,
      [\<lparr>event_name = ''tool_call'', event_timestamp = ''2025-07-01T00:00:00.000Z'',
        function_name = ''foo'', function_args = JObj [], duration_ms = 5, ev_success = False,
        ev_error = Some (''Tool '' @ [CHR 0x22] @ ''foo'' @ [CHR 0x22] @ '' not found in registry.'')\<rparr>])
   \<and> executeToolCall example_exec_env (example_request ''bar'') [''bar'' \<mapsto> throwing_tool] None =
     (\<lparr>tresp_callId = ''call-1'',
       tresp_responseParts =
         PartList [PPart
           \<lparr>part_text = None, part_thought = None, part_functionCall = None,
            part_functionResponse = Some
              \<lparr>fr_id = Some ''call-1'', fr_name = Some ''bar'',
               fr_response = Some (JObj [(''error'', JStr ''boom'')])\<rparr>,
            part_inlineData = None\<rparr>],
       tresp_resultDisplay = Some (DisplayString ''boom''),
       tresp_error = Some (Error ''boom'')\<rparr>,
      [\<lparr>event_name = ''tool_call'', event_timestamp = ''2025-07-01T00:00:00.000Z'',
        function_name = ''bar'', function_args = JObj [], duration_ms = 5, ev_success = False,
        ev_error = Some ''boom''\<rparr>])"
proof -
  have none: "(Map.empty :: (unit, unit) ToolRegistry) (tcr_name (example_request ''foo'')) = None"
    by simp
  have some: "[''bar'' \<mapsto> throwing_tool] (tcr_name (example_request ''bar'')) = Some throwing_tool"
    by (simp add: example_request_def)
  have thrown: "throwing_tool (tcr_args (example_request ''bar''))
                  (case None of Some s \<Rightarrow> s | None \<Rightarrow> \<lparr>sig_aborted = False\<rparr>) = Inl (Thrown ''boom'')"
    by (simp add: throwing_tool_def)
  note a = executeToolCall_failure_is_structured
    [of "Map.empty :: (unit, unit) ToolRegistry" "example_request ''foo''" example_exec_env None,
     THEN conjunct1, rule_format, OF none]
  note b = executeToolCall_failure_is_structured
    [of "[''bar'' \<mapsto> throwing_tool]" "example_request ''bar''" example_exec_env None throwing_tool
        "Thrown ''boom''",
     THEN conjunct2, rule_format, OF conjI [OF some thrown], THEN conjunct1]
  from a b show ?thesis
    by (simp add: example_request_def example_exec_env_def failure_event_def)
qed

subsection \<open>Outbound translation\<close>






lemma normalize_append:
  "normalizeContents (ContentArray (xs @ ys)) =
   normalizeContents (ContentArray xs) @ normalizeContents (ContentArray ys)"
  by simp

lemma convertToolResults_append:
  "convertToolResultsToTextForAnthropic pf (xs @ ys) =
   convertToolResultsToTextForAnthropic pf xs @ convertToolResultsToTextForAnthropic pf ys"
  by (simp add: convertToolResultsToTextForAnthropic_def)

lemma convertToolResults_Nil_iff:
  "convertToolResultsToTextForAnthropic pf xs = [] \<longleftrightarrow> xs = []"
  by (simp add: convertToolResultsToTextForAnthropic_def)

lemma convertToolResults_no_parts:
  "content_parts c = Some [] \<Longrightarrow> convertToolResultsToTextForAnthropic pf [c] = [c]"
  by (simp add: convertToolResultsToTextForAnthropic_def)

lemma processedContents_append:
  "cs1 \<noteq> [] \<or> \<not> wants_json request \<Longrightarrow>
   processedContents pf (cs1 @ cs2) request = processedContents pf cs1 request @ cs2"
  by (cases cs1) (auto simp: processedContents_def split: option.splits)

lemma wants_json_contents [simp]:
  "wants_json (request\<lparr>req_contents := x\<rparr>) = wants_json request"
  by (simp add: wants_json_def)

lemma jsonInstruction_contents [simp]:
  "jsonInstruction pf (request\<lparr>req_contents := x\<rparr>) = jsonInstruction pf request"
  by (simp add: jsonInstruction_def)

lemma processedContents_contents [simp]:
  "processedContents pf cs (request\<lparr>req_contents := x\<rparr>) = processedContents pf cs request"
  by (simp add: processedContents_def split: list.splits option.splits)

lemma anthropic_message_no_parts:
  "content_parts c = Some [] \<Longrightarrow> anthropic_message pf c = None"
  by (simp add: anthropic_message_def)

lemma anthropic_message_nonempty:
  "anthropic_message pf c = Some m \<Longrightarrow> am_content m \<noteq> []"
  by (auto simp: anthropic_message_def Let_def split: if_splits)

lemma map_filter_append:
  "List.map_filter f (xs @ ys) = List.map_filter f xs @ List.map_filter f ys"
  by (simp add: List.map_filter_def)

lemma set_map_filter:
  "y \<in> set (List.map_filter f xs) \<longleftrightarrow> (\<exists>x \<in> set xs. f x = Some y)"
  by (induction xs) (auto split: option.splits)

lemma openai_message_no_parts:
  "content_parts c = Some [] \<Longrightarrow>
   openai_message pf c =
     \<lparr>om_role = (if content_role c = Some ''model'' then Some ''assistant'' else content_role c),
      om_content = ''''\<rparr>"
  by (simp add: openai_message_def)

text \<open>
  The claim as stated fails on the OpenAI-compatible adapter: a content with zero parts
  is not dropped, it is sent as a message whose content is the empty string.
\<close>

theorem empty_content_counterexample:
  "convertToOpenAIFormat example_platform
     (contents_request [\<lparr>content_role = Some ''user'', content_parts = Some []\<rparr>])
   = [\<lparr>om_role = Some ''user'', om_content = ''''\<rparr>]"
  by (simp add: convertToOpenAIFormat_def contents_request_def wants_json_def openai_message_def)

text \<open>
  Claim C7, as amended. The Anthropic adapter never sends a message with empty content,
  and it drops a content with zero parts: the messages are the same as if the content
  were not in the request (for a JSON request this needs a content before it, since the
  instruction goes into the content at index 0). The OpenAI-compatible adapter drops
  nothing: a content with zero parts becomes a message with the mapped role and the
  empty string as content, at its place among the others.
\<close>

theorem empty_content_outbound:
  "(\<forall>m \<in> set (convertToAnthropicFormat pf request). am_content m \<noteq> [])
   \<and> (content_parts c = Some [] \<and>
        (wants_json request \<longrightarrow> normalizeContents (ContentArray items1) \<noteq> []) \<longrightarrow>
        convertToAnthropicFormat pf (request\<lparr>req_contents := ContentArray (items1 @ ItemContent c # items2)\<rparr>)
          = convertToAnthropicFormat pf (request\<lparr>req_contents := ContentArray (items1 @ items2)\<rparr>))
   \<and> (content_parts c = Some [] \<longrightarrow>
        convertToOpenAIFormat pf (request\<lparr>req_contents := ContentArray (items1 @ ItemContent c # items2)\<rparr>)
          = (if wants_json request
             then [\<lparr>om_role = Some ''system'', om_content = jsonInstruction pf request\<rparr>] else []) @
            map (openai_message pf) (normalizeContents (ContentArray items1)) @
            \<lparr>om_role = (if content_role c = Some ''model'' then Some ''assistant'' else content_role c),
             om_content = ''''\<rparr> #
            map (openai_message pf) (normalizeContents (ContentArray items2)))"
proof (intro conjI impI ballI)
  fix m assume "m \<in> set (convertToAnthropicFormat pf request)"
  then show "am_content m \<noteq> []"
    by (auto simp: convertToAnthropicFormat_def convertContentsToAnthropicMessages_def
        set_map_filter dest: anthropic_message_nonempty)
next
  assume h: "content_parts c = Some [] \<and>
             (wants_json request \<longrightarrow> normalizeContents (ContentArray items1) \<noteq> [])"
  define T where "T = convertToolResultsToTextForAnthropic pf"
  define N1 where "N1 = normalizeContents (ContentArray items1)"
  define N2 where "N2 = normalizeContents (ContentArray items2)"
  have c: "normalizeContents (ContentArray [ItemContent c]) = [c]"
    using h by simp
  have n: "normalizeContents (ContentArray (items1 @ ItemContent c # items2)) = N1 @ c # N2"
    using h by (simp add: N1_def N2_def)
  have n': "normalizeContents (ContentArray (items1 @ items2)) = N1 @ N2"
    by (simp add: N1_def N2_def)
  have t: "T (N1 @ c # N2) = T N1 @ c # T N2"
    using convertToolResults_append [of pf N1 "c # N2"] convertToolResults_append [of pf "[c]" N2]
      convertToolResults_no_parts [of c pf] h
    by (simp add: T_def)
  have t': "T (N1 @ N2) = T N1 @ T N2"
    by (simp add: T_def convertToolResults_append)
  have cond: "T N1 \<noteq> [] \<or> \<not> wants_json request"
    using h by (auto simp: T_def N1_def convertToolResults_Nil_iff)
  have p: "processedContents pf (T N1 @ c # T N2) request = processedContents pf (T N1) request @ c # T N2"
    using cond by (rule processedContents_append)
  have p': "processedContents pf (T N1 @ T N2) request = processedContents pf (T N1) request @ T N2"
    using cond by (rule processedContents_append)
  show "convertToAnthropicFormat pf (request\<lparr>req_contents := ContentArray (items1 @ ItemContent c # items2)\<rparr>)
          = convertToAnthropicFormat pf (request\<lparr>req_contents := ContentArray (items1 @ items2)\<rparr>)"
    using h n n' t t' p p' anthropic_message_no_parts [of c pf]
    by (simp add: convertToAnthropicFormat_def convertContentsToAnthropicMessages_def
        map_filter_append T_def del: normalizeContents.simps)
next
  assume h: "content_parts c = Some []"
  then show "convertToOpenAIFormat pf (request\<lparr>req_contents := ContentArray (items1 @ ItemContent c # items2)\<rparr>)
          = (if wants_json request
             then [\<lparr>om_role = Some ''system'', om_content = jsonInstruction pf request\<rparr>] else []) @
            map (openai_message pf) (normalizeContents (ContentArray items1)) @
            \<lparr>om_role = (if content_role c = Some ''model'' then Some ''assistant'' else content_role c),
             om_content = ''''\<rparr> #
            map (openai_message pf) (normalizeContents (ContentArray items2))"
    by (simp add: convertToOpenAIFormat_def Let_def openai_message_no_parts)
qed

theorem empty_content_outbound_witness:
  "content_parts \<lparr>content_role = Some ''model'', content_parts = Some []\<rparr> = Some []
   \<and> convertToAnthropicFormat example_platform
         (contents_request
            [\<lparr>content_role = Some ''user'', content_parts = Some [text_part ''hi'']\<rparr>,
             \<lparr>content_role = Some ''model'', content_parts = Some []\<rparr>])
       = [\<lparr>am_role = ''user'', am_content = [TextBlock ''hi'']\<rparr>]
   \<and> convertToOpenAIFormat example_platform
         (contents_request
            [\<lparr>content_role = Some ''user'', content_parts = Some [text_part ''hi'']\<rparr>,
             \<lparr>content_role = Some ''model'', content_parts = Some []\<rparr>])
       = [\<lparr>om_role = Some ''user'', om_content = ''hi''\<rparr>,
          \<lparr>om_role = Some ''assistant'', om_content = ''''\<rparr>]"
proof -
  let ?u = "\<lparr>content_role = Some ''user'', content_parts = Some [text_part ''hi'']\<rparr>"
  let ?e = "\<lparr>content_role = Some ''model'', content_parts = Some []\<rparr>"
  have h: "content_parts ?e = Some [] \<and>
           (wants_json (contents_request []) \<longrightarrow> normalizeContents (ContentArray [ItemContent ?u]) \<noteq> [])"
    by simp
  note t = empty_content_outbound [of example_platform "contents_request [?u, ?e]"]
  note d = empty_content_outbound [of example_platform "contents_request []" ?e "[ItemContent ?u]" "[]"]
  have r: "contents_request [] \<lparr>req_contents := ContentArray ([ItemContent ?u] @ ItemContent ?e # [])\<rparr>
           = contents_request [?u, ?e]"
    by (simp add: contents_request_def)
  have a: "convertToAnthropicFormat example_platform
             (contents_request [] \<lparr>req_contents := ContentArray ([ItemContent ?u] @ [])\<rparr>)
           = [\<lparr>am_role = ''user'', am_content = [TextBlock ''hi'']\<rparr>]"
    by (simp add: convertToAnthropicFormat_def convertContentsToAnthropicMessages_def
        processedContents_def wants_json_def contents_request_def
        convertToolResultsToTextForAnthropic_def text_part_def
        anthropic_message_def anthropic_block_def Let_def)
  from h t d a show ?thesis
    unfolding r
    by (simp add: wants_json_def contents_request_def openai_message_def text_part_def)
qed

subsection \<open>Turn engine\<close>

lemma handlePendingFunctionCall_aborted [simp]:
  "handlePendingFunctionCall (env\<lparr>env_aborted := f\<rparr>) fnCall st = handlePendingFunctionCall env fnCall st"
  by (simp add: handlePendingFunctionCall_def cong: option.case_cong)

lemma handle_function_calls_aborted [simp]:
  "handle_function_calls (env\<lparr>env_aborted := f\<rparr>) fs st = handle_function_calls env fs st"
  by (induction fs arbitrary: st) simp_all

lemma content_events_aborted [simp]:
  "content_events (env\<lparr>env_aborted := f\<rparr>) resp = content_events env resp"
  by (simp add: content_events_def)

lemma process_unit_aborted [simp]:
  "process_unit (env\<lparr>env_aborted := f\<rparr>) resp st = process_unit env resp st"
  by (simp add: process_unit_def Let_def cong: if_cong prod.case_cong)








subsection \<open>Backfilled call ids\<close>













subsection \<open>Malformed tool-call arguments\<close>

lemma single_shot_loop:
  "tool_calls_loop P False w
     (map (\<lambda>(i, n, s). JObj [(''id'', JStr i), (''type'', JStr ''function''),
                             (''function'', JObj [(''name'', JStr n), (''arguments'', JStr s)])]) calls)
     st fcs =
   (st, Inr (fcs @ map (\<lambda>(i, n, s). \<lparr>fc_id = Some (JStr i), fc_name = Some (JStr n),
                                       fc_args = (case P s of Some v \<Rightarrow> v | None \<Rightarrow> JObj [])\<rparr>) calls))"
  by (induction calls arbitrary: fcs) (auto simp: single_shot_call_def)

text \<open>
  Claim C6. Arguments that do not parse never abort a conversion; the descriptor is
  emitted with the empty object as arguments. For the accumulated tool calls of either
  adapter, a non-empty list of entries is converted to one response with one
  descriptor per entry, in order, whose arguments are the parsed string, or the empty
  object when the string is empty or the parser fails; this is what the OpenAI-compatible
  stream yields at the terminator line and the Anthropic stream at its end. For a
  non-streaming OpenAI-compatible response, every tool call of the message gives a
  descriptor whose arguments are the parsed string or, when the parser fails, the empty
  object, and the conversion returns a response.
\<close>

theorem malformed_arguments_give_empty_object:
  "(toolCalls \<noteq> [] \<longrightarrow>
      convertAccumulatedToolCallsToGemini P toolCalls =
        Some \<lparr>resp_text = JStr '''', resp_finishReason = JStr ''tool_calls'',
              resp_promptTokenCount = JNum 0, resp_candidatesTokenCount = JNum 0,
              resp_totalTokenCount = JNum 0,
              resp_functionCalls = map (\<lambda>tc.
                \<lparr>fc_id = Some (oa_id tc), fc_name = Some (oa_name tc),
                 fc_args = (if oa_arguments tc = [] then JObj []
                            else case P (oa_arguments tc) of Some v \<Rightarrow> v | None \<Rightarrow> JObj [])\<rparr>)
                toolCalls\<rparr>
      \<and> oa_lines_loop P (''data: [DONE]'' # rest) (map (\<lambda>tc. (oa_id tc, tc)) toolCalls, idx) =
          ((map (\<lambda>tc. (oa_id tc, tc)) toolCalls, idx),
           [\<lparr>resp_text = JStr '''', resp_finishReason = JStr ''tool_calls'',
             resp_promptTokenCount = JNum 0, resp_candidatesTokenCount = JNum 0,
             resp_totalTokenCount = JNum 0,
             resp_functionCalls = map (\<lambda>tc.
               \<lparr>fc_id = Some (oa_id tc), fc_name = Some (oa_name tc),
                fc_args = (if oa_arguments tc = [] then JObj []
                           else case P (oa_arguments tc) of Some v \<Rightarrow> v | None \<Rightarrow> JObj [])\<rparr>)
               toolCalls\<rparr>],
           True))
   \<and> (acc \<noteq> [] \<longrightarrow>
      convertAccumulatedAnthropicToolCallsToGemini P (map snd acc) =
        Some \<lparr>resp_text = JStr '''', resp_finishReason = JStr ''tool_calls'',
              resp_promptTokenCount = JNum 0, resp_candidatesTokenCount = JNum 0,
              resp_totalTokenCount = JNum 0,
              resp_functionCalls = map (\<lambda>(k, tc).
                \<lparr>fc_id = an_id tc, fc_name = an_name tc,
                 fc_args = (if an_input tc = [] then JObj []
                            else case P (an_input tc) of Some v \<Rightarrow> v | None \<Rightarrow> JObj [])\<rparr>)
                acc\<rparr>
      \<and> an_read_loop P decode [] earlier buffer acc =
          ([\<lparr>resp_text = JStr '''', resp_finishReason = JStr ''tool_calls'',
             resp_promptTokenCount = JNum 0, resp_candidatesTokenCount = JNum 0,
             resp_totalTokenCount = JNum 0,
             resp_functionCalls = map (\<lambda>(k, tc).
               \<lparr>fc_id = an_id tc, fc_name = an_name tc,
                fc_args = (if an_input tc = [] then JObj []
                           else case P (an_input tc) of Some v \<Rightarrow> v | None \<Rightarrow> JObj [])\<rparr>)
               acc\<rparr>],
           None))
   \<and> convertFromOpenAIFormat P (chat_completion calls) False False st =
       (st, Inr (Some
          \<lparr>resp_text = JStr '''', resp_finishReason = JStr ''tool_calls'',
           resp_promptTokenCount = JNum 0, resp_candidatesTokenCount = JNum 0,
           resp_totalTokenCount = JNum 0,
           resp_functionCalls = map (\<lambda>(i, n, s).
             \<lparr>fc_id = Some (JStr i), fc_name = Some (JStr n),
              fc_args = (case P s of Some v \<Rightarrow> v | None \<Rightarrow> JObj [])\<rparr>) calls\<rparr>))"
proof -
  have oa: "map (accumulated_call P) toolCalls =
           map (\<lambda>tc. \<lparr>fc_id = Some (oa_id tc), fc_name = Some (oa_name tc),
                   fc_args = (if oa_arguments tc = [] then JObj []
                              else case P (oa_arguments tc) of Some v \<Rightarrow> v | None \<Rightarrow> JObj [])\<rparr>) toolCalls"
    by (simp add: accumulated_call_def)
  have s: "map (snd \<circ> (\<lambda>tc. (oa_id tc, tc))) toolCalls = toolCalls"
    by (simp add: comp_def)
  have an: "map (accumulated_anthropic_call P \<circ> snd) acc =
           map (\<lambda>(k, tc). \<lparr>fc_id = an_id tc, fc_name = an_name tc,
                   fc_args = (if an_input tc = [] then JObj []
                              else case P (an_input tc) of Some v \<Rightarrow> v | None \<Rightarrow> JObj [])\<rparr>) acc"
    by (auto simp: accumulated_anthropic_call_def)
  have single: "convertFromOpenAIFormat P (chat_completion calls) False False st =
       (st, Inr (Some
          \<lparr>resp_text = JStr '''', resp_finishReason = JStr ''tool_calls'',
           resp_promptTokenCount = JNum 0, resp_candidatesTokenCount = JNum 0,
           resp_totalTokenCount = JNum 0,
           resp_functionCalls = map (\<lambda>(i, n, s).
             \<lparr>fc_id = Some (JStr i), fc_name = Some (JStr n),
              fc_args = (case P s of Some v \<Rightarrow> v | None \<Rightarrow> JObj [])\<rparr>) calls\<rparr>))"
    by (simp add: convertFromOpenAIFormat_def chat_completion_def single_shot_loop or_else_def Let_def)
  show ?thesis
  proof (intro conjI impI)
    assume "toolCalls \<noteq> []"
    then show "convertAccumulatedToolCallsToGemini P toolCalls =
        Some \<lparr>resp_text = JStr '''', resp_finishReason = JStr ''tool_calls'',
              resp_promptTokenCount = JNum 0, resp_candidatesTokenCount = JNum 0,
              resp_totalTokenCount = JNum 0,
              resp_functionCalls = map (\<lambda>tc.
                \<lparr>fc_id = Some (oa_id tc), fc_name = Some (oa_name tc),
                 fc_args = (if oa_arguments tc = [] then JObj []
                            else case P (oa_arguments tc) of Some v \<Rightarrow> v | None \<Rightarrow> JObj [])\<rparr>)
                toolCalls\<rparr>"
      by (simp add: convertAccumulatedToolCallsToGemini_def tool_calls_response_def oa Let_def)
  next
    assume "toolCalls \<noteq> []"
    then show "oa_lines_loop P (''data: [DONE]'' # rest) (map (\<lambda>tc. (oa_id tc, tc)) toolCalls, idx) =
          ((map (\<lambda>tc. (oa_id tc, tc)) toolCalls, idx),
           [\<lparr>resp_text = JStr '''', resp_finishReason = JStr ''tool_calls'',
             resp_promptTokenCount = JNum 0, resp_candidatesTokenCount = JNum 0,
             resp_totalTokenCount = JNum 0,
             resp_functionCalls = map (\<lambda>tc.
               \<lparr>fc_id = Some (oa_id tc), fc_name = Some (oa_name tc),
                fc_args = (if oa_arguments tc = [] then JObj []
                           else case P (oa_arguments tc) of Some v \<Rightarrow> v | None \<Rightarrow> JObj [])\<rparr>)
               toolCalls\<rparr>],
           True)"
      by (simp add: startsWith_def slice_def s convertAccumulatedToolCallsToGemini_def
          tool_calls_response_def oa Let_def)
  next
    assume "acc \<noteq> []"
    then show "convertAccumulatedAnthropicToolCallsToGemini P (map snd acc) =
        Some \<lparr>resp_text = JStr '''', resp_finishReason = JStr ''tool_calls'',
              resp_promptTokenCount = JNum 0, resp_candidatesTokenCount = JNum 0,
              resp_totalTokenCount = JNum 0,
              resp_functionCalls = map (\<lambda>(k, tc).
                \<lparr>fc_id = an_id tc, fc_name = an_name tc,
                 fc_args = (if an_input tc = [] then JObj []
                            else case P (an_input tc) of Some v \<Rightarrow> v | None \<Rightarrow> JObj [])\<rparr>)
                acc\<rparr>"
      by (simp add: convertAccumulatedAnthropicToolCallsToGemini_def tool_calls_response_def an Let_def)
  next
    assume "acc \<noteq> []"
    then show "an_read_loop P decode [] earlier buffer acc =
          ([\<lparr>resp_text = JStr '''', resp_finishReason = JStr ''tool_calls'',
             resp_promptTokenCount = JNum 0, resp_candidatesTokenCount = JNum 0,
             resp_totalTokenCount = JNum 0,
             resp_functionCalls = map (\<lambda>(k, tc).
               \<lparr>fc_id = an_id tc, fc_name = an_name tc,
                fc_args = (if an_input tc = [] then JObj []
                           else case P (an_input tc) of Some v \<Rightarrow> v | None \<Rightarrow> JObj [])\<rparr>)
               acc\<rparr>],
           None)"
      by (simp add: convertAccumulatedAnthropicToolCallsToGemini_def tool_calls_response_def an Let_def)
  next
    show "convertFromOpenAIFormat P (chat_completion calls) False False st =
       (st, Inr (Some
          \<lparr>resp_text = JStr '''', resp_finishReason = JStr ''tool_calls'',
           resp_promptTokenCount = JNum 0, resp_candidatesTokenCount = JNum 0,
           resp_totalTokenCount = JNum 0,
           resp_functionCalls = map (\<lambda>(i, n, s).
             \<lparr>fc_id = Some (JStr i), fc_name = Some (JStr n),
              fc_args = (case P s of Some v \<Rightarrow> v | None \<Rightarrow> JObj [])\<rparr>) calls\<rparr>))"
      by (rule single)
  qed
qed

lemma truncated_arguments_unreadable: "json_read truncated_arguments = None"
  by (simp add: json_read_def truncated_arguments_def expect_def is_ws_def read_number_def is_digit_def)

theorem malformed_arguments_give_empty_object_witness:
  "convertAccumulatedToolCallsToGemini json_read
     [\<lparr>oa_id = JStr ''c1'', oa_name = JStr ''search'', oa_arguments = truncated_arguments\<rparr>] =
     Some \<lparr>resp_text = JStr '''', resp_finishReason = JStr ''tool_calls'',
           resp_promptTokenCount = JNum 0, resp_candidatesTokenCount = JNum 0,
           resp_totalTokenCount = JNum 0,
           resp_functionCalls =
             [\<lparr>fc_id = Some (JStr ''c1''), fc_name = Some (JStr ''search''), fc_args = JObj []\<rparr>]\<rparr>
   \<and> oa_lines_loop json_read [''data: [DONE]'']
       ([(JStr ''c1'', \<lparr>oa_id = JStr ''c1'', oa_name = JStr ''search'',
                         oa_arguments = truncated_arguments\<rparr>)], [(JNum 0, JStr ''c1'')]) =
     (([(JStr ''c1'', \<lparr>oa_id = JStr ''c1'', oa_name = JStr ''search'',
                        oa_arguments = truncated_arguments\<rparr>)], [(JNum 0, JStr ''c1'')]),
      [\<lparr>resp_text = JStr '''', resp_finishReason = JStr ''tool_calls'',
        resp_promptTokenCount = JNum 0, resp_candidatesTokenCount = JNum 0,
        resp_totalTokenCount = JNum 0,
        resp_functionCalls =
          [\<lparr>fc_id = Some (JStr ''c1''), fc_name = Some (JStr ''search''), fc_args = JObj []\<rparr>]\<rparr>],
      True)
   \<and> an_read_loop json_read utf8_decode [] [] []
       [(''index_0'', \<lparr>an_id = Some (JStr ''t1''), an_name = Some (JStr ''lookup''),
                       an_input = truncated_arguments\<rparr>)] =
     ([\<lparr>resp_text = JStr '''', resp_finishReason = JStr ''tool_calls'',
        resp_promptTokenCount = JNum 0, resp_candidatesTokenCount = JNum 0,
        resp_totalTokenCount = JNum 0,
        resp_functionCalls =
          [\<lparr>fc_id = Some (JStr ''t1''), fc_name = Some (JStr ''lookup''), fc_args = JObj []\<rparr>]\<rparr>],
      None)
   \<and> snd (convertFromOpenAIFormat json_read
       (chat_completion [(''c1'', ''search'', truncated_arguments), (''c2'', ''fetch'', ''{}'')])
       False False ([], [])) =
     Inr (Some
       \<lparr>resp_text = JStr '''', resp_finishReason = JStr ''tool_calls'',
        resp_promptTokenCount = JNum 0, resp_candidatesTokenCount = JNum 0,
        resp_totalTokenCount = JNum 0,
        resp_functionCalls =
          [\<lparr>fc_id = Some (JStr ''c1''), fc_name = Some (JStr ''search''), fc_args = JObj []\<rparr>,
           \<lparr>fc_id = Some (JStr ''c2''), fc_name = Some (JStr ''fetch''), fc_args = JObj []\<rparr>]\<rparr>)"
proof -
  have t: "truncated_arguments \<noteq> []"
    by (simp add: truncated_arguments_def)
  have e: "json_read ''{}'' = Some (JObj [])"
    by (simp add: json_read_def expect_def is_ws_def)
  note w = malformed_arguments_give_empty_object
    [where toolCalls = "[\<lparr>oa_id = JStr ''c1'', oa_name = JStr ''search'',
                           oa_arguments = truncated_arguments\<rparr>]"
       and P = json_read and rest = "[]" and idx = "[(JNum 0, JStr ''c1'')]"
       and acc = "[(''index_0'', \<lparr>an_id = Some (JStr ''t1''), an_name = Some (JStr ''lookup''),
                                   an_input = truncated_arguments\<rparr>)]"
       and decode = utf8_decode and earlier = "[]" and buffer = "[]"
       and calls = "[(''c1'', ''search'', truncated_arguments), (''c2'', ''fetch'', ''{}'')]"
       and st = "([], [])"]
  from w t show ?thesis
    by (simp add: truncated_arguments_unreadable e)
qed

subsection \<open>Lines and reads\<close>

lemma split_lines_not_Nil [simp]: "split_lines s \<noteq> []"
  by (induction s) (auto split: list.splits)

lemma split_lines_append:
  "split_lines (a @ b) = butlast (split_lines a) @ split_lines (last (split_lines a) @ b)"
proof (induction a)
  case Nil
  then show ?case by simp
next
  case (Cons c cs)
  show ?case
  proof (cases "c = CHR 0x0A")
    case True
    then show ?thesis
      using Cons.IH by simp
  next
    case False
    obtain l ls where s: "split_lines cs = l # ls"
      by (cases "split_lines cs") simp_all
    show ?thesis
    proof (cases ls)
      case Nil
      with False s Cons.IH show ?thesis
        by (simp split: list.splits)
    next
      case (Cons m ms)
      with False s Cons.IH show ?thesis
        by (simp split: list.splits)
    qed
  qed
qed

lemma split_lines_line:
  "CHR 0x0A \<notin> set l \<Longrightarrow> split_lines (l @ CHR 0x0A # t) = l # split_lines t"
  by (induction l) (auto split: list.splits)

lemma split_lines_unlines:
  "\<forall>l \<in> set ls. CHR 0x0A \<notin> set l \<Longrightarrow> split_lines (unlines ls @ t) = ls @ split_lines t"
  by (induction ls) (simp_all add: unlines_def split_lines_line)

lemma butlast_split_lines_unlines:
  "\<forall>l \<in> set ls. CHR 0x0A \<notin> set l \<Longrightarrow>
   butlast (split_lines (unlines ls @ t)) = ls @ butlast (split_lines t)"
  by (simp add: split_lines_unlines butlast_append)

lemma an_lines_loop_append:
  "an_lines_loop P (xs @ ys) acc =
     (case an_lines_loop P xs acc of
        (acc1, out1) \<Rightarrow>
          (case an_lines_loop P ys acc1 of (acc2, out2) \<Rightarrow> (acc2, out1 @ out2)))"
  by (induction xs arbitrary: acc) (auto split: prod.splits option.splits sum.splits)

lemma oa_lines_loop_append:
  "oa_lines_loop P (xs @ ys) st =
     (case oa_lines_loop P xs st of
        (st1, out1, True) \<Rightarrow> (st1, out1, True)
      | (st1, out1, False) \<Rightarrow>
          (case oa_lines_loop P ys st1 of (st2, out2, fin) \<Rightarrow> (st2, out1 @ out2, fin)))"
  by (induction xs arbitrary: st) (auto simp: Let_def split: prod.splits option.splits sum.splits bool.splits)

lemma last_split_lines_no_nl: "CHR 0x0A \<notin> set (last (split_lines s))"
  by (induction s) (auto split: list.splits)

lemma split_lines_no_nl: "CHR 0x0A \<notin> set s \<Longrightarrow> split_lines s = [s]"
  by (induction s) (auto split: list.splits)

lemma butlast_split_lines_append:
  "butlast (split_lines (a @ b)) =
   butlast (split_lines a) @ butlast (split_lines (last (split_lines a) @ b))"
  by (subst split_lines_append) (simp add: butlast_append)

lemma last_split_lines_append:
  "last (split_lines (a @ b)) = last (split_lines (last (split_lines a) @ b))"
  by (subst split_lines_append) simp

lemma an_read_loop_lines:
  "CHR 0x0A \<notin> set buffer \<Longrightarrow>
   an_read_loop P D (map Chunk cs) earlier buffer acc =
     (case an_lines_loop P (butlast (split_lines (buffer @ decoded_text D earlier cs))) acc of
        (acc1, out) \<Rightarrow> (out @ fst (an_read_loop P D [] [] [] acc1), None))"
proof (induction cs arbitrary: earlier buffer acc)
  case Nil
  then show ?case
    by (simp add: split_lines_no_nl)
next
  case (Cons c cs)
  let ?t = "D earlier c" and ?r = "decoded_text D (earlier @ [c]) cs"
  have ih: "an_read_loop P D (map Chunk cs) (earlier @ [c]) (last (split_lines (buffer @ ?t))) acc1 =
     (case an_lines_loop P (butlast (split_lines (last (split_lines (buffer @ ?t)) @ ?r))) acc1 of
        (acc2, out) \<Rightarrow> (out @ fst (an_read_loop P D [] [] [] acc2), None))" for acc1
    by (rule Cons.IH) (rule last_split_lines_no_nl)
  have b: "butlast (split_lines (buffer @ decoded_text D earlier (c # cs))) =
           butlast (split_lines (buffer @ ?t)) @
           butlast (split_lines (last (split_lines (buffer @ ?t)) @ ?r))"
    using butlast_split_lines_append [of "buffer @ ?t" ?r] by simp
  show ?case
    unfolding b an_lines_loop_append
    by (simp add: ih Let_def split: prod.splits)
qed

lemma oa_read_loop_lines:
  "CHR 0x0A \<notin> set buffer \<Longrightarrow>
   oa_read_loop P D (map Chunk cs) earlier buffer st =
     (case oa_lines_loop P (butlast (split_lines (buffer @ decoded_text D earlier cs))) st of
        (st1, out, fin) \<Rightarrow> (out, fin, None))"
proof (induction cs arbitrary: earlier buffer st)
  case Nil
  then show ?case
    by (simp add: split_lines_no_nl)
next
  case (Cons c cs)
  let ?t = "D earlier c" and ?r = "decoded_text D (earlier @ [c]) cs"
  have ih: "oa_read_loop P D (map Chunk cs) (earlier @ [c]) (last (split_lines (buffer @ ?t))) st1 =
     (case oa_lines_loop P (butlast (split_lines (last (split_lines (buffer @ ?t)) @ ?r))) st1 of
        (st2, out, fin) \<Rightarrow> (out, fin, None))" for st1
    by (rule Cons.IH) (rule last_split_lines_no_nl)
  have b: "butlast (split_lines (buffer @ decoded_text D earlier (c # cs))) =
           butlast (split_lines (buffer @ ?t)) @
           butlast (split_lines (last (split_lines (buffer @ ?t)) @ ?r))"
    using butlast_split_lines_append [of "buffer @ ?t" ?r] by simp
  show ?case
    unfolding b oa_lines_loop_append
    by (simp add: ih Let_def split: prod.splits bool.splits)
qed

subsection \<open>Anthropic stream\<close>

lemma opt_prop_Some [simp]: "opt_prop (Some v) k = get_prop v k"
  by (cases v) simp_all

lemma handle_tool_use_start:
  "is_tool_use_start ev idx ident nm \<Longrightarrow>
   handleAnthropicStreamingEvent ev True acc =
     (AList.update (''index_'' @ show_int idx)
        \<lparr>an_id = Some ident, an_name = Some nm, an_input = ''''\<rparr> acc, Inr None)"
  by (cases ev) (auto simp: is_tool_use_start_def handleAnthropicStreamingEvent_def Let_def
      split: option.splits json.splits)

lemma handle_input_json_delta:
  "is_input_json_delta ev idx frag \<Longrightarrow>
   handleAnthropicStreamingEvent ev True acc =
     (AList.map_entry (''index_'' @ show_int idx) (\<lambda>a. a\<lparr>an_input := an_input a @ frag\<rparr>) acc,
      Inr None)"
  by (cases ev) (auto simp: is_input_json_delta_def handleAnthropicStreamingEvent_def Let_def
      split: option.splits json.splits)

lemma handle_message_stop:
  "is_message_stop ev \<Longrightarrow> handleAnthropicStreamingEvent ev True acc = (acc, Inr None)"
  by (cases ev) (auto simp: is_message_stop_def handleAnthropicStreamingEvent_def)

lemma data_line [simp]:
  "startsWith (''data: '' @ p) ''data: ''" "\<not> startsWith (''data: '' @ p) ''event: ''"
  "slice (''data: '' @ p) 6 = p"
  by (simp_all add: startsWith_def slice_def)

text \<open>
  Claim C2. Take the Anthropic stream of a \<^verbatim>\<open>content_block_start\<close> event for block 0 that
  opens the tool use with id t1 and name lookup, two \<^verbatim>\<open>input_json_delta\<close> events for
  block 0 with the fragments \<^verbatim>\<open>{"x":1\<close> and \<^verbatim>\<open>}\<close>, and \<^verbatim>\<open>message_stop\<close>, each as a
  \<^verbatim>\<open>data: \<close> line after its \<^verbatim>\<open>event: \<close> line and before a blank line, with a parser
  that reads the four payloads as these events and the joined fragments as the object
  with x = 1. However the bytes are cut into reads, as long as the decoder makes this text
  of them, the adapter yields exactly one response, and its function calls are the single
  call of id t1, name lookup and arguments \<^verbatim>\<open>{"x": 1}\<close>; the lines themselves yield no
  response, so nothing is emitted before the flush at the end of the stream.
\<close>

theorem anthropic_tool_use_stream:
  assumes "P p1 = Some e1" and "is_tool_use_start e1 0 (JStr ''t1'') (JStr ''lookup'')"
    and "P p2 = Some e2" and "is_input_json_delta e2 0 lookup_fragment"
    and "P p3 = Some e3" and "is_input_json_delta e3 0 ''}''"
    and "P p4 = Some e4" and "is_message_stop e4"
    and "P (lookup_fragment @ ''}'') = Some (JObj [(''x'', JNum 1)])"
    and "CHR 0x0A \<notin> set p1 \<union> set p2 \<union> set p3 \<union> set p4"
    and "decoded_text D [] cs = unlines (tool_use_lines p1 p2 p3 p4)"
  shows "anthropic_generateContentStreamInternal P D details (ok_response cs) =
           ([\<lparr>resp_text = JStr '''', resp_finishReason = JStr ''tool_calls'',
              resp_promptTokenCount = JNum 0, resp_candidatesTokenCount = JNum 0,
              resp_totalTokenCount = JNum 0,
              resp_functionCalls =
                [\<lparr>fc_id = Some (JStr ''t1''), fc_name = Some (JStr ''lookup''),
                  fc_args = JObj [(''x'', JNum 1)]\<rparr>]\<rparr>], None)
         \<and> map resp_functionCalls
             (fst (anthropic_generateContentStreamInternal P D details (ok_response cs))) =
           [[\<lparr>fc_id = Some (JStr ''t1''), fc_name = Some (JStr ''lookup''),
              fc_args = JObj [(''x'', JNum 1)]\<rparr>]]
         \<and> snd (an_lines_loop P (tool_use_lines p1 p2 p3 p4) []) = []"
proof -
  have z: "show_int 0 = ''0''"
    by (simp add: show_int_def show_nat.simps digit_char_def)
  have lines: "an_lines_loop P (tool_use_lines p1 p2 p3 p4) [] =
      ([(''index_0'', \<lparr>an_id = Some (JStr ''t1''), an_name = Some (JStr ''lookup''),
                       an_input = lookup_fragment @ ''}''\<rparr>)], [])"
    using assms(1,3,5,7)
    by (simp add: tool_use_lines_def startsWith_def slice_def
        handle_tool_use_start [OF assms(2)] handle_input_json_delta [OF assms(4)]
        handle_input_json_delta [OF assms(6)] handle_message_stop [OF assms(8)] z)
  have nl: "\<forall>l \<in> set (tool_use_lines p1 p2 p3 p4). CHR 0x0A \<notin> set l"
    using assms(10) by (simp add: tool_use_lines_def)
  have b: "butlast (split_lines (decoded_text D [] cs)) = tool_use_lines p1 p2 p3 p4"
    using butlast_split_lines_unlines [OF nl, of "[]"] assms(11) by simp
  have f: "lookup_fragment @ ''}'' \<noteq> []"
    by simp
  have "an_read_loop P D (map Chunk cs) [] [] [] =
          ([\<lparr>resp_text = JStr '''', resp_finishReason = JStr ''tool_calls'',
             resp_promptTokenCount = JNum 0, resp_candidatesTokenCount = JNum 0,
             resp_totalTokenCount = JNum 0,
             resp_functionCalls =
               [\<lparr>fc_id = Some (JStr ''t1''), fc_name = Some (JStr ''lookup''),
                 fc_args = JObj [(''x'', JNum 1)]\<rparr>]\<rparr>], None)"
    by (subst an_read_loop_lines)
       (simp_all add: b lines convertAccumulatedAnthropicToolCallsToGemini_def
          tool_calls_response_def accumulated_anthropic_call_def assms(9) f
          del: append_is_Nil_conv)
  with lines show ?thesis
    by (simp add: anthropic_generateContentStreamInternal_def ok_response_def)
qed

theorem anthropic_tool_use_stream_witness:
  "anthropic_generateContentStreamInternal json_read utf8_decode ''''
     (ok_response [byte_order_mark @ take 100 lookup_bytes, take 150 (drop 100 lookup_bytes),
                   drop 150 (drop 100 lookup_bytes)]) =
     ([\<lparr>resp_text = JStr '''', resp_finishReason = JStr ''tool_calls'',
        resp_promptTokenCount = JNum 0, resp_candidatesTokenCount = JNum 0,
        resp_totalTokenCount = JNum 0,
        resp_functionCalls =
          [\<lparr>fc_id = Some (JStr ''t1''), fc_name = Some (JStr ''lookup''),
            fc_args = JObj [(''x'', JNum 1)]\<rparr>]\<rparr>], None)"
proof -
  let ?e1 = "JObj [(''type'', JStr ''content_block_start''), (''index'', JNum 0),
                   (''content_block'', JObj [(''type'', JStr ''tool_use''), (''id'', JStr ''t1''),
                                             (''name'', JStr ''lookup''), (''input'', JObj [])])]"
  let ?e2 = "JObj [(''type'', JStr ''content_block_delta''), (''index'', JNum 0),
                   (''delta'', JObj [(''type'', JStr ''input_json_delta''),
                                     (''partial_json'', JStr lookup_fragment)])]"
  let ?e3 = "JObj [(''type'', JStr ''content_block_delta''), (''index'', JNum 0),
                   (''delta'', JObj [(''type'', JStr ''input_json_delta''),
                                     (''partial_json'', JStr ''}'')])]"
  let ?e4 = "JObj [(''type'', JStr ''message_stop'')]"
  have p1: "json_read lookup_start_payload = Some ?e1"
    by code_simp
  have p2: "json_read lookup_delta1_payload = Some ?e2"
    by code_simp
  have p3: "json_read lookup_delta2_payload = Some ?e3"
    by code_simp
  have p4: "json_read lookup_stop_payload = Some ?e4"
    by code_simp
  have s1: "is_tool_use_start ?e1 0 (JStr ''t1'') (JStr ''lookup'')"
    by (simp add: is_tool_use_start_def or_else_def)
  have s2: "is_input_json_delta ?e2 0 lookup_fragment"
    by (simp add: is_input_json_delta_def or_else_def lookup_fragment_def)
  have s3: "is_input_json_delta ?e3 0 ''}''"
    by (simp add: is_input_json_delta_def or_else_def)
  have s4: "is_message_stop ?e4"
    by (simp add: is_message_stop_def)
  have a: "json_read (lookup_fragment @ ''}'') = Some (JObj [(''x'', JNum 1)])"
    by code_simp
  have n: "CHR 0x0A \<notin> set lookup_start_payload \<union> set lookup_delta1_payload \<union>
             set lookup_delta2_payload \<union> set lookup_stop_payload"
    by code_simp
  have "decoded_text utf8_decode []
          [byte_order_mark @ take 100 lookup_bytes, take 150 (drop 100 lookup_bytes),
           drop 150 (drop 100 lookup_bytes)] = lookup_bytes"
    by code_simp
  then have c: "decoded_text utf8_decode []
          [byte_order_mark @ take 100 lookup_bytes, take 150 (drop 100 lookup_bytes),
           drop 150 (drop 100 lookup_bytes)] =
        unlines (tool_use_lines lookup_start_payload lookup_delta1_payload lookup_delta2_payload
                   lookup_stop_payload)"
    by (simp only: lookup_bytes_def)
  from anthropic_tool_use_stream [OF p1 s1 p2 s2 p3 s3 p4 s4 a n c, of "''''"]
  show ?thesis
    by simp
qed

subsection \<open>OpenAI-compatible stream: the maps\<close>

lemma update_new_key:
  "k \<notin> fst ` set xs \<Longrightarrow> AList.update k v xs = xs @ [(k, v)]"
  by (induction xs) auto

lemma update_same_value:
  "map_of xs k = Some v \<Longrightarrow> AList.update k v xs = xs"
  by (induction xs) (auto split: if_splits)

lemma map_entry_distinct:
  "distinct (map fst xs) \<Longrightarrow>
   AList.map_entry k f xs = map (\<lambda>p. if fst p = k then (fst p, f (snd p)) else p) xs"
proof (induction xs)
  case Nil
  then show ?case by simp
next
  case (Cons p ps)
  show ?case
  proof (cases "fst p = k")
    case True
    then have "k \<notin> fst ` set ps"
      using Cons.prems by auto
    then have "map (\<lambda>p. if fst p = k then (fst p, f (snd p)) else p) ps = ps"
      by (induction ps) auto
    with True show ?thesis
      by (cases p) simp
  next
    case False
    with Cons show ?thesis
      by (cases p) simp
  qed
qed

lemma map_entry_new_key:
  "k \<notin> fst ` set xs \<Longrightarrow> AList.map_entry k f (xs @ [(k, v)]) = xs @ [(k, f v)]"
  by (induction xs) auto

lemma fst_accumulator_entry [simp]: "fst (accumulator_entry e) = JStr (ce_id e)"
  by (simp add: accumulator_entry_def)

lemma keys_accumulator_of: "fst ` set (accumulator_of es) = (\<lambda>e. JStr (ce_id e)) ` set es"
  by (auto simp: accumulator_of_def image_iff)

lemma keys_index_map_of: "fst ` set (index_map_of es) = (\<lambda>e. JNum (int (ce_index e))) ` set es"
  by (auto simp: index_map_of_def image_iff)

lemma distinct_keys_accumulator_of:
  "distinct (map ce_id es) \<Longrightarrow> distinct (map fst (accumulator_of es))"
  by (simp add: accumulator_of_def comp_def distinct_map inj_on_def)

lemma map_of_index_map_of:
  "distinct (map ce_index es) \<Longrightarrow> e \<in> set es \<Longrightarrow>
   map_of (index_map_of es) (JNum (int (ce_index e))) = Some (JStr (ce_id e))"
  by (induction es) (auto simp: index_map_of_def image_iff)

lemma map_of_accumulator_of_None:
  "c \<notin> ce_id ` set es \<Longrightarrow> map_of (accumulator_of es) (JStr c) = None"
  by (simp add: map_of_eq_None_iff keys_accumulator_of image_iff)

lemma map_of_accumulator_of_Some:
  "e \<in> set es \<Longrightarrow> map_of (accumulator_of es) (JStr (ce_id e)) \<noteq> None"
  by (simp add: map_of_eq_None_iff keys_accumulator_of image_iff) blast

lemma or_else_string [simp]: "or_else (map_option JStr s) (JStr []) = JStr (opt_string s)"
  by (cases s) (simp_all add: or_else_def opt_string_def)

lemma truthy_string [simp]: "truthy (map_option JStr s) \<longleftrightarrow> opt_string s \<noteq> []"
  by (cases s) (simp_all add: opt_string_def)

lemma map_entry_same: "AList.map_entry k (\<lambda>a. a) xs = xs"
  by (induction xs) auto

lemma map_entry_twice: "AList.map_entry k f (AList.map_entry k g xs) = AList.map_entry k (\<lambda>a. f (g a)) xs"
  by (induction xs) auto

lemma name_step:
  "get_prop fn ''name'' = map_option JStr nm \<Longrightarrow>
   (case get_prop fn ''name'' of
      Some n \<Rightarrow> if truthy (Some n) then AList.map_entry k (\<lambda>a. a\<lparr>oa_name := n\<rparr>) acc else acc
    | None \<Rightarrow> acc) =
   AList.map_entry k (\<lambda>a. if opt_string nm \<noteq> [] then a\<lparr>oa_name := JStr (opt_string nm)\<rparr> else a) acc"
  by (cases nm) (simp_all add: opt_string_def map_entry_same)

lemma args_step:
  "get_prop fn ''arguments'' = map_option JStr ar \<Longrightarrow>
   (case get_prop fn ''arguments'' of
      Some a \<Rightarrow> if truthy (Some a)
                then AList.map_entry k (\<lambda>e. e\<lparr>oa_arguments := oa_arguments e @ js_toString a\<rparr>) acc
                else acc
    | None \<Rightarrow> acc) =
   AList.map_entry k (\<lambda>e. e\<lparr>oa_arguments := oa_arguments e @ opt_string ar\<rparr>) acc"
  by (cases ar) (simp_all add: opt_string_def map_entry_same)

text \<open>The streaming branch on a chunk that reads as \<open>d\<close>, for an index already open.\<close>

lemma accumulate_open_index:
  assumes di: "distinct (map ce_index es)" and dc: "distinct (map ce_id es)"
    and ne: "\<forall>e \<in> set es. ce_id e \<noteq> []"
    and e0: "e0 \<in> set es" "ce_index e0 = td_index d"
    and ident: "td_id d = None \<or> td_id d = Some (ce_id e0)"
    and idx: "or_else (get_prop toolCall ''index'') (JNum 0) = JNum (int (td_index d))"
    and tid: "get_prop toolCall ''id'' = map_option JStr (td_id d)"
    and nm: "get_prop fn ''name'' = map_option JStr (td_name d)"
    and ar: "get_prop fn ''arguments'' = map_option JStr (td_args d)"
  shows "accumulate_tool_call toolCall fn (accumulator_of es, index_map_of es) =
           (accumulator_of (add_delta es d), index_map_of (add_delta es d))"
proof -
  have look: "map_of (index_map_of es) (JNum (int (td_index d))) = Some (JStr (ce_id e0))"
    using map_of_index_map_of [OF di e0(1)] e0(2) by simp
  have c0: "ce_id e0 \<noteq> []"
    using ne e0(1) by blast
  have idx1: "(case get_prop toolCall ''id'' of
                 Some i \<Rightarrow> if truthy (Some i)
                           then AList.update (JNum (int (td_index d))) i (index_map_of es)
                           else index_map_of es
               | None \<Rightarrow> index_map_of es) = index_map_of es"
    using ident look c0 by (auto simp: tid update_same_value)
  have callId: "or_else (js_or (map_of (index_map_of es) (JNum (int (td_index d)))) (get_prop toolCall ''id''))
                  (JStr (''call_'' @ js_toString (JNum (int (td_index d))))) = JStr (ce_id e0)"
    using look c0 by (simp add: js_or_def or_else_def)
  have present: "map_of (accumulator_of es) (JStr (ce_id e0)) \<noteq> None"
    by (rule map_of_accumulator_of_Some [OF e0(1)])
  have same: "ce_id e = ce_id e0 \<longleftrightarrow> ce_index e = td_index d" if "e \<in> set es" for e
    using that e0 di dc by (metis distinct_map inj_on_def)
  have inside: "td_index d \<in> ce_index ` set es"
    using e0 by force
  have im: "index_map_of (add_delta es d) = index_map_of es"
    using inside by (simp add: add_delta_def index_map_of_def comp_def cong: if_cong)
  have upd: "AList.map_entry (JStr (ce_id e0)) f (accumulator_of es) =
             map (\<lambda>e. if ce_index e = td_index d
                      then (JStr (ce_id e), f (snd (accumulator_entry e)))
                      else accumulator_entry e) es" for f
  proof -
    have "map (\<lambda>p. if fst p = JStr (ce_id e0) then (fst p, f (snd p)) else p) (accumulator_of es) =
          map (\<lambda>e. if ce_index e = td_index d
                   then (JStr (ce_id e), f (snd (accumulator_entry e)))
                   else accumulator_entry e) es"
      unfolding accumulator_of_def map_map by (rule map_cong) (auto simp: same)
    then show ?thesis
      by (simp add: map_entry_distinct [OF distinct_keys_accumulator_of [OF dc]])
  qed
  have acc: "accumulator_of (add_delta es d) =
             map (\<lambda>e. if ce_index e = td_index d
                      then (JStr (ce_id e),
                            (\<lambda>a. (if opt_string (td_name d) \<noteq> []
                                  then a\<lparr>oa_name := JStr (opt_string (td_name d))\<rparr> else a)
                                 \<lparr>oa_arguments :=
                                    oa_arguments (if opt_string (td_name d) \<noteq> []
                                                  then a\<lparr>oa_name := JStr (opt_string (td_name d))\<rparr> else a)
                                    @ opt_string (td_args d)\<rparr>)
                              (snd (accumulator_entry e)))
                      else accumulator_entry e) es"
    using inside by (simp add: add_delta_def accumulator_of_def accumulator_entry_def comp_def)
  show ?thesis
    unfolding accumulate_tool_call_def Let_def fst_conv snd_conv idx idx1 callId
      name_step [OF nm] args_step [OF ar] map_entry_twice
    using present by (auto simp: im upd acc)
qed

text \<open>The same for an index not yet open, whose delta brings a fresh id.\<close>

lemma accumulate_new_index:
  assumes new: "td_index d \<notin> ce_index ` set es"
    and ident: "td_id d = Some c" "c \<noteq> []" "c \<notin> ce_id ` set es"
    and idx: "or_else (get_prop toolCall ''index'') (JNum 0) = JNum (int (td_index d))"
    and tid: "get_prop toolCall ''id'' = map_option JStr (td_id d)"
    and nm: "get_prop fn ''name'' = map_option JStr (td_name d)"
    and ar: "get_prop fn ''arguments'' = map_option JStr (td_args d)"
  shows "accumulate_tool_call toolCall fn (accumulator_of es, index_map_of es) =
           (accumulator_of (add_delta es d), index_map_of (add_delta es d))"
proof -
  have nokey: "JNum (int (td_index d)) \<notin> fst ` set (index_map_of es)"
    using new by (auto simp: keys_index_map_of)
  have idx1: "(case get_prop toolCall ''id'' of
                 Some i \<Rightarrow> if truthy (Some i)
                           then AList.update (JNum (int (td_index d))) i (index_map_of es)
                           else index_map_of es
               | None \<Rightarrow> index_map_of es) = index_map_of es @ [(JNum (int (td_index d)), JStr c)]"
    using ident by (simp add: tid update_new_key [OF nokey])
  have look: "map_of (index_map_of es @ [(JNum (int (td_index d)), JStr c)]) (JNum (int (td_index d)))
              = Some (JStr c)"
    using nokey by (simp add: map_add_Some_iff map_of_eq_None_iff)
  have callId: "or_else (js_or (map_of (index_map_of es @ [(JNum (int (td_index d)), JStr c)])
                                  (JNum (int (td_index d)))) (get_prop toolCall ''id''))
                  (JStr (''call_'' @ js_toString (JNum (int (td_index d))))) = JStr c"
    unfolding look using ident(2) by (simp add: js_or_def or_else_def)
  have absent: "map_of (accumulator_of es) (JStr c) = None"
    by (rule map_of_accumulator_of_None [OF ident(3)])
  have nk: "JStr c \<notin> fst ` set (accumulator_of es)"
    using ident(3) by (auto simp: keys_accumulator_of)
  have im: "index_map_of (add_delta es d) = index_map_of es @ [(JNum (int (td_index d)), JStr c)]"
    using new ident(1) by (simp add: add_delta_def index_map_of_def opt_string_def)
  have acc: "accumulator_of (add_delta es d) =
             accumulator_of es @
               [(JStr c, \<lparr>oa_id = JStr c, oa_name = JStr (opt_string (td_name d)),
                          oa_arguments = opt_string (td_args d)\<rparr>)]"
    using new ident(1) by (simp add: add_delta_def accumulator_of_def accumulator_entry_def opt_string_def)
  show ?thesis
    unfolding accumulate_tool_call_def Let_def fst_conv snd_conv idx idx1 callId
      name_step [OF nm] args_step [OF ar] map_entry_twice
    using absent by (simp add: im acc map_entry_new_key [OF nk] nm)
qed

lemma accumulate_delta:
  assumes "distinct (map ce_index es)" and "distinct (map ce_id es)"
    and "\<forall>e \<in> set es. ce_id e \<noteq> []"
    and "accepts es d"
    and "or_else (get_prop toolCall ''index'') (JNum 0) = JNum (int (td_index d))"
    and "get_prop toolCall ''id'' = map_option JStr (td_id d)"
    and "get_prop fn ''name'' = map_option JStr (td_name d)"
    and "get_prop fn ''arguments'' = map_option JStr (td_args d)"
  shows "accumulate_tool_call toolCall fn (accumulator_of es, index_map_of es) =
           (accumulator_of (add_delta es d), index_map_of (add_delta es d))"
proof (cases "td_index d \<in> ce_index ` set es")
  case True
  then obtain e0 where e0: "e0 \<in> set es" "ce_index e0 = td_index d"
    by auto
  with True assms(4) have "td_id d = None \<or> td_id d = Some (ce_id e0)"
    by (simp add: accepts_def)
  with e0 show ?thesis
    using assms by (intro accumulate_open_index)
next
  case False
  with assms(4) obtain c where "td_id d = Some c" "c \<noteq> []" "c \<notin> ce_id ` set es"
    by (auto simp: accepts_def split: option.splits)
  with False show ?thesis
    using assms by (intro accumulate_new_index)
qed

text \<open>The conversion of a tool-call chunk and of a text chunk.\<close>

lemma chunk_deltaE:
  assumes "chunk_delta ev = Some delta"
  obtains kvs choice others where "ev = JObj kvs"
    and "map_of kvs ''choices'' = Some (JArr (choice # others))"
    and "get_prop choice ''delta'' = Some delta" and "truthy (Some choice)"
proof -
  from assms obtain kvs where ev: "ev = JObj kvs"
    by (cases ev) (simp_all add: chunk_delta_def)
  from assms ev obtain choice others where
    c: "map_of kvs ''choices'' = Some (JArr (choice # others))" "get_prop choice ''delta'' = Some delta"
    by (auto simp: chunk_delta_def split: option.splits json.splits list.splits)
  have "truthy (Some choice)"
    using c(2) by (cases choice) simp_all
  with ev c show thesis
    by (rule that)
qed

lemma convert_chunk:
  assumes "chunk_delta ev = Some delta"
  shows "convertFromOpenAIFormat P ev True True st =
           (case (case get_prop delta ''tool_calls'' of
                    Some (JArr tool_calls) \<Rightarrow> tool_calls_loop P True True tool_calls st []
                  | _ \<Rightarrow> (st, Inr [])) of
              (st1, Inl e) \<Rightarrow> (st1, Inl e)
            | (st1, Inr functionCalls) \<Rightarrow>
                if \<not> truthy (Some (or_else (get_prop delta ''content'') (JStr []))) \<and> functionCalls = []
                then (st1, Inr None)
                else (st1, Inr (Some
                  \<lparr>resp_text = or_else (get_prop delta ''content'') (JStr []),
                   resp_finishReason =
                     or_else (case opt_index0 (get_prop ev ''choices'') of
                                Some choice \<Rightarrow> get_prop choice ''finish_reason'' | None \<Rightarrow> None)
                       (JStr ''STOP''),
                   resp_promptTokenCount =
                     or_else (opt_prop (get_prop ev ''usage'') ''prompt_tokens'') (JNum 0),
                   resp_candidatesTokenCount =
                     or_else (opt_prop (get_prop ev ''usage'') ''completion_tokens'') (JNum 0),
                   resp_totalTokenCount =
                     or_else (opt_prop (get_prop ev ''usage'') ''total_tokens'') (JNum 0),
                   resp_functionCalls = functionCalls\<rparr>)))"
proof -
  from assms obtain kvs choice others where ev: "ev = JObj kvs"
    and c: "map_of kvs ''choices'' = Some (JArr (choice # others))"
      "get_prop choice ''delta'' = Some delta" "truthy (Some choice)"
    by (rule chunk_deltaE)
  have o: "opt_prop (Some delta) k = get_prop delta k" for k
    by (cases delta) simp_all
  show ?thesis
    by (simp add: convertFromOpenAIFormat_def ev c o Let_def
        cong: prod.case_cong sum.case_cong if_cong)
qed

lemma convert_tool_call_chunk:
  assumes "distinct (map ce_index es)" and "distinct (map ce_id es)"
    and "\<forall>e \<in> set es. ce_id e \<noteq> []"
    and "accepts es d" and "is_tool_call_chunk ev d"
  shows "convertFromOpenAIFormat P ev True True (accumulator_of es, index_map_of es) =
           ((accumulator_of (add_delta es d), index_map_of (add_delta es d)), Inr None)"
proof -
  from assms(5) obtain delta where de: "chunk_delta ev = Some delta"
    and nt: "\<not> truthy (get_prop delta ''content'')"
    and r1: "(case single_tool_call delta of
             Some toolCall \<Rightarrow>
               or_else (get_prop toolCall ''index'') (JNum 0) = JNum (int (td_index d)) \<and>
               get_prop toolCall ''id'' = map_option JStr (td_id d) \<and>
               (case get_prop toolCall ''function'' of
                  Some fn \<Rightarrow>
                    truthy (Some fn) \<and>
                    get_prop fn ''name'' = map_option JStr (td_name d) \<and>
                    get_prop fn ''arguments'' = map_option JStr (td_args d)
                | None \<Rightarrow> False)
           | None \<Rightarrow> False)"
    by (cases "chunk_delta ev") (simp_all add: is_tool_call_chunk_def)
  from r1 obtain toolCall where st: "single_tool_call delta = Some toolCall"
    and ix: "or_else (get_prop toolCall ''index'') (JNum 0) = JNum (int (td_index d))"
    and ti: "get_prop toolCall ''id'' = map_option JStr (td_id d)"
    and r2: "(case get_prop toolCall ''function'' of
                  Some fn \<Rightarrow>
                    truthy (Some fn) \<and>
                    get_prop fn ''name'' = map_option JStr (td_name d) \<and>
                    get_prop fn ''arguments'' = map_option JStr (td_args d)
                | None \<Rightarrow> False)"
    by (cases "single_tool_call delta") simp_all
  from r2 obtain fn where fn: "get_prop toolCall ''function'' = Some fn" "truthy (Some fn)"
    and nm: "get_prop fn ''name'' = map_option JStr (td_name d)"
    and ar: "get_prop fn ''arguments'' = map_option JStr (td_args d)"
    by (cases "get_prop toolCall ''function''") simp_all
  have tc: "get_prop delta ''tool_calls'' = Some (JArr [toolCall])"
    using st by (auto simp: single_tool_call_def split: option.splits json.splits list.splits)
  have r: "read_prop (Some toolCall) ''type'' = Inr (get_prop toolCall ''type'')"
    using fn(1) by (cases toolCall) simp_all
  have content: "or_else (get_prop delta ''content'') (JStr []) = JStr []"
    using nt by (auto simp: or_else_def split: option.splits)
  show ?thesis
    using accumulate_delta [OF assms(1-4) ix ti nm ar]
    by (simp add: convert_chunk [OF de] tc r fn content)
qed

lemma convert_text_chunk:
  assumes "is_text_chunk ev t"
  shows "\<exists>r. convertFromOpenAIFormat P ev True True st = (st, Inr (Some r)) \<and>
             resp_text r = JStr t \<and> resp_functionCalls r = []"
proof -
  from assms obtain delta where de: "chunk_delta ev = Some delta"
    and tx: "get_prop delta ''content'' = Some (JStr t)" "t \<noteq> []"
    and tc: "no_tool_calls delta"
    by (cases "chunk_delta ev") (simp_all add: is_text_chunk_def)
  have content: "or_else (get_prop delta ''content'') (JStr []) = JStr t"
    using tx by (simp add: or_else_def)
  have loop: "(case get_prop delta ''tool_calls'' of
                    Some (JArr tool_calls) \<Rightarrow> tool_calls_loop P True True tool_calls st []
                  | _ \<Rightarrow> (st, Inr [])) = (st, Inr [])"
    using tc by (auto simp: no_tool_calls_def split: option.splits json.splits)
  show ?thesis
    using tx(2) by (simp add: convert_chunk [OF de] content loop)
qed

text \<open>In streaming mode with the maps, no conversion returns a function call.\<close>

lemma streaming_loop_keeps_calls:
  "tool_calls_loop P True True tcs st fcs = (st1, Inr fcs1) \<Longrightarrow> fcs1 = fcs"
  by (induction tcs arbitrary: st) (auto split: sum.splits option.splits if_splits)

lemma streaming_conversion_no_calls:
  "convertFromOpenAIFormat P ev True True st = (st1, Inr (Some r)) \<Longrightarrow> resp_functionCalls r = []"
  by (auto simp: convertFromOpenAIFormat_def Let_def
      split: sum.splits option.splits if_splits json.splits prod.splits
      dest: streaming_loop_keeps_calls)

subsection \<open>OpenAI-compatible stream: the logical tool calls\<close>

lemma find_snoc:
  "find P (xs @ [x]) = (case find P xs of Some y \<Rightarrow> Some y | None \<Rightarrow> if P x then Some x else None)"
  by (induction xs) auto

lemma well_formed_from_snoc:
  "well_formed_from earlier (ds @ [d]) = (well_formed_from earlier ds \<and> continues (earlier @ ds) d)"
  by (induction ds arbitrary: earlier) auto

lemma well_formed_snoc: "well_formed (ds @ [d]) = (well_formed ds \<and> continues ds d)"
  by (simp add: well_formed_def well_formed_from_snoc)

lemma indices_snoc:
  "indices (ds @ [d]) = (if td_index d \<in> td_index ` set ds then indices ds else indices ds @ [td_index d])"
  by (simp add: indices_def)

lemma set_indices [simp]: "set (indices ds) = td_index ` set ds"
  by (simp add: indices_def)

lemma distinct_indices [simp]: "distinct (indices ds)"
  by (simp add: indices_def)

lemma deltas_of_snoc:
  "deltas_of i (ds @ [d]) = deltas_of i ds @ (if td_index d = i then [d] else [])"
  by (simp add: deltas_of_def)

lemma deltas_of_absent: "i \<notin> td_index ` set ds \<Longrightarrow> deltas_of i ds = []"
  by (auto simp: deltas_of_def filter_empty_conv)

lemma map_filter_snoc:
  "List.map_filter f (xs @ ys) = List.map_filter f xs @ List.map_filter f ys"
  by (simp add: List.map_filter_def)

lemma find_index_None: "(find (\<lambda>d. td_index d = i) ds = None) = (i \<notin> td_index ` set ds)"
  by (auto simp: find_None_iff)

lemma id_of_snoc:
  "id_of i (ds @ [d]) =
     (if i \<in> td_index ` set ds then id_of i ds
      else if td_index d = i then opt_string (td_id d) else [])"
proof (cases "find (\<lambda>d. td_index d = i) ds")
  case None
  then show ?thesis
    using find_index_None [of i ds] by (simp add: id_of_def find_snoc)
next
  case (Some a)
  then show ?thesis
    using find_index_None [of i ds] by (simp add: id_of_def find_snoc)
qed

lemma name_of_snoc:
  "name_of i (ds @ [d]) =
     (if td_index d = i \<and> opt_string (td_name d) \<noteq> [] then opt_string (td_name d) else name_of i ds)"
  by (cases "td_name d")
     (auto simp: name_of_def deltas_of_snoc map_filter_snoc opt_string_def)

lemma name_of_absent: "i \<notin> td_index ` set ds \<Longrightarrow> name_of i ds = []"
  by (simp add: name_of_def deltas_of_absent)

lemma args_of_snoc:
  "args_of i (ds @ [d]) = args_of i ds @ (if td_index d = i then opt_string (td_args d) else [])"
  by (cases "td_args d")
     (auto simp: args_of_def deltas_of_snoc map_filter_snoc opt_string_def)

lemma args_of_absent: "i \<notin> td_index ` set ds \<Longrightarrow> args_of i ds = []"
  by (simp add: args_of_def deltas_of_absent)

lemma indices_entries_of [simp]: "map ce_index (entries_of ds) = indices ds"
  by (simp add: entries_of_def comp_def)

lemma set_indices_entries_of [simp]: "ce_index ` set (entries_of ds) = td_index ` set ds"
  by (simp add: entries_of_def image_image)

lemma id_entries_of: "e \<in> set (entries_of ds) \<Longrightarrow> ce_id e = id_of (ce_index e) ds"
  by (auto simp: entries_of_def)

lemma entries_of_snoc: "entries_of (ds @ [d]) = add_delta (entries_of ds) d"
proof (cases "td_index d \<in> td_index ` set ds")
  case True
  have "map (\<lambda>i. \<lparr>ce_index = i, ce_id = id_of i (ds @ [d]), ce_name = name_of i (ds @ [d]),
                  ce_args = args_of i (ds @ [d])\<rparr>) (indices ds) =
        map ((\<lambda>e. if ce_index e = td_index d
                  then e\<lparr>ce_name := (if opt_string (td_name d) \<noteq> [] then opt_string (td_name d)
                                     else ce_name e),
                         ce_args := ce_args e @ opt_string (td_args d)\<rparr>
                  else e) \<circ>
             (\<lambda>i. \<lparr>ce_index = i, ce_id = id_of i ds, ce_name = name_of i ds, ce_args = args_of i ds\<rparr>))
          (indices ds)"
    by (rule map_cong) (auto simp: id_of_snoc name_of_snoc args_of_snoc)
  with True show ?thesis
    by (simp add: entries_of_def add_delta_def indices_snoc del: set_indices_entries_of)
      (simp add: image_image)
next
  case False
  have "map (\<lambda>i. \<lparr>ce_index = i, ce_id = id_of i (ds @ [d]), ce_name = name_of i (ds @ [d]),
                  ce_args = args_of i (ds @ [d])\<rparr>) (indices ds) =
        map (\<lambda>i. \<lparr>ce_index = i, ce_id = id_of i ds, ce_name = name_of i ds, ce_args = args_of i ds\<rparr>)
          (indices ds)"
    using False by (intro map_cong) (auto simp: id_of_snoc name_of_snoc args_of_snoc)
  with False show ?thesis
    by (simp add: entries_of_def add_delta_def indices_snoc id_of_snoc name_of_snoc args_of_snoc
        name_of_absent args_of_absent image_image)
qed

lemma well_formed_ids:
  "well_formed ds \<Longrightarrow>
   (\<forall>i \<in> td_index ` set ds.
      id_of i ds \<noteq> [] \<and> Some (id_of i ds) \<in> td_id ` set ds \<and>
      (\<exists>opener. find (\<lambda>e. td_index e = i) ds = Some opener \<and> td_id opener = Some (id_of i ds)))
   \<and> inj_on (\<lambda>i. id_of i ds) (td_index ` set ds)"
proof (induction ds rule: rev_induct)
  case Nil
  then show ?case by simp
next
  case (snoc d ds)
  then have wf: "well_formed ds" and co: "continues ds d"
    by (simp_all add: well_formed_snoc)
  note ih = snoc.IH [OF wf]
  show ?case
  proof (cases "td_index d \<in> td_index ` set ds")
    case True
    have a: "\<forall>i \<in> td_index ` set ds.
      id_of i (ds @ [d]) \<noteq> [] \<and> Some (id_of i (ds @ [d])) \<in> td_id ` set (ds @ [d]) \<and>
      (\<exists>opener. find (\<lambda>e. td_index e = i) (ds @ [d]) = Some opener \<and>
                 td_id opener = Some (id_of i (ds @ [d])))"
      using ih by (auto simp: id_of_snoc find_snoc)
    have b: "inj_on (\<lambda>i. id_of i (ds @ [d])) (td_index ` set ds)"
      using ih by (simp add: id_of_snoc inj_on_def)
    from True a b show ?thesis
      by (simp add: insert_absorb)
  next
    case False
    then have none: "find (\<lambda>e. td_index e = td_index d) ds = None"
      by (simp add: find_index_None)
    with co obtain c where c: "td_id d = Some c" "c \<noteq> []" "Some c \<notin> td_id ` set ds"
      by (auto simp: continues_def split: option.splits)
    have old: "\<forall>i \<in> td_index ` set ds.
      id_of i (ds @ [d]) \<noteq> [] \<and> Some (id_of i (ds @ [d])) \<in> td_id ` set (ds @ [d]) \<and>
      (\<exists>opener. find (\<lambda>e. td_index e = i) (ds @ [d]) = Some opener \<and>
                 td_id opener = Some (id_of i (ds @ [d])))"
      using ih by (auto simp: id_of_snoc find_snoc)
    have new: "id_of (td_index d) (ds @ [d]) = c"
      using False c by (simp add: id_of_snoc opt_string_def)
    have new': "find (\<lambda>e. td_index e = td_index d) (ds @ [d]) = Some d"
      using none by (simp add: find_snoc)
    have same: "id_of i (ds @ [d]) = id_of i ds" if "i \<in> td_index ` set ds" for i
      using that by (simp add: id_of_snoc)
    have differ: "id_of i ds \<noteq> c" if "i \<in> td_index ` set ds" for i
    proof
      assume "id_of i ds = c"
      moreover have "Some (id_of i ds) \<in> td_id ` set ds"
        using ih that by blast
      ultimately show False
        using c(3) by simp
    qed
    have inj: "inj_on (\<lambda>i. id_of i (ds @ [d])) (insert (td_index d) (td_index ` set ds))"
    proof (rule inj_onI)
      fix x y
      assume x: "x \<in> insert (td_index d) (td_index ` set ds)"
        and y: "y \<in> insert (td_index d) (td_index ` set ds)"
        and eq: "id_of x (ds @ [d]) = id_of y (ds @ [d])"
      consider "x = td_index d" "y = td_index d"
        | "x = td_index d" "y \<in> td_index ` set ds"
        | "x \<in> td_index ` set ds" "y = td_index d"
        | "x \<in> td_index ` set ds" "y \<in> td_index ` set ds"
        using x y by blast
      then show "x = y"
      proof cases
        case 1
        then show ?thesis by simp
      next
        case 2
        with eq new same [of y] differ [of y] show ?thesis by simp
      next
        case 3
        with eq new same [of x] differ [of x] show ?thesis by simp
      next
        case 4
        with eq same [of x] same [of y] have "id_of x ds = id_of y ds"
          by simp
        moreover from ih have "inj_on (\<lambda>i. id_of i ds) (td_index ` set ds)"
          by blast
        ultimately show ?thesis
          using 4 by (blast dest: inj_onD)
      qed
    qed
    from old new new' c inj show ?thesis
      by simp
  qed
qed

lemma entries_of_invariant:
  assumes "well_formed ds"
  shows "distinct (map ce_index (entries_of ds))" and "distinct (map ce_id (entries_of ds))"
    and "\<forall>e \<in> set (entries_of ds). ce_id e \<noteq> []"
proof -
  note w = well_formed_ids [OF assms]
  show "distinct (map ce_index (entries_of ds))"
    by simp
  have "map ce_id (entries_of ds) = map (\<lambda>i. id_of i ds) (indices ds)"
    by (simp add: entries_of_def comp_def)
  then show "distinct (map ce_id (entries_of ds))"
    using w by (simp add: distinct_map)
  show "\<forall>e \<in> set (entries_of ds). ce_id e \<noteq> []"
    using w by (auto simp: entries_of_def)
qed

lemma entries_of_accepts:
  assumes "well_formed ds" and "continues ds d"
  shows "accepts (entries_of ds) d"
proof (cases "td_index d \<in> td_index ` set ds")
  case True
  with well_formed_ids [OF assms(1)] obtain opener where
    o: "find (\<lambda>e. td_index e = td_index d) ds = Some opener" "td_id opener = Some (id_of (td_index d) ds)"
    by blast
  with assms(2) have "td_id d = None \<or> td_id d = Some (id_of (td_index d) ds)"
    by (simp add: continues_def)
  with True show ?thesis
    by (auto simp: accepts_def id_entries_of)
next
  case False
  then have "find (\<lambda>e. td_index e = td_index d) ds = None"
    by (simp add: find_index_None)
  with assms(2) obtain c where c: "td_id d = Some c" "c \<noteq> []" "Some c \<notin> td_id ` set ds"
    by (auto simp: continues_def split: option.splits)
  have "c \<notin> ce_id ` set (entries_of ds)"
  proof
    assume "c \<in> ce_id ` set (entries_of ds)"
    then obtain e where e: "e \<in> set (entries_of ds)" "c = ce_id e"
      by blast
    then have "ce_index e \<in> td_index ` set ds"
      using set_indices_entries_of [of ds] by blast
    with well_formed_ids [OF assms(1)] have "Some (id_of (ce_index e) ds) \<in> td_id ` set ds"
      by blast
    with e c(3) show False
      by (simp add: id_entries_of)
  qed
  with False c show ?thesis
    by (simp add: accepts_def)
qed

subsection \<open>OpenAI-compatible stream: the lines\<close>

lemma entries_of_Nil [simp]: "entries_of [] = []"
  by (simp add: entries_of_def indices_def)

lemma entries_of_empty [simp]: "(entries_of ds = []) = (ds = [])"
  by (simp add: entries_of_def indices_def)

lemma tool_deltas_simps [simp]:
  "tool_deltas [] = []"
  "tool_deltas (ToolDelta d # items) = d # tool_deltas items"
  "tool_deltas (TextDelta t # items) = tool_deltas items"
  "tool_deltas (Skipped # items) = tool_deltas items"
  by (simp_all add: tool_deltas_def)

lemma text_deltas_simps [simp]:
  "text_deltas [] = []"
  "text_deltas (ToolDelta d # items) = text_deltas items"
  "text_deltas (TextDelta t # items) = t # text_deltas items"
  "text_deltas (Skipped # items) = text_deltas items"
  by (simp_all add: text_deltas_def)

lemma step_tool_delta:
  assumes "carries P l (ToolDelta d)" and "well_formed ds" and "continues ds d"
  shows "oa_lines_loop P (l # rest) (accumulator_of (entries_of ds), index_map_of (entries_of ds)) =
         oa_lines_loop P rest (accumulator_of (entries_of (ds @ [d])),
                               index_map_of (entries_of (ds @ [d])))"
proof -
  from assms(1) obtain ev where l: "startsWith l ''data: ''" "slice l 6 \<noteq> ''[DONE]''"
    and ev: "P (slice l 6) = Some ev" "is_tool_call_chunk ev d"
    by (cases "P (slice l 6)") simp_all
  have "convertFromOpenAIFormat P ev True True
          (accumulator_of (entries_of ds), index_map_of (entries_of ds)) =
        ((accumulator_of (entries_of (ds @ [d])), index_map_of (entries_of (ds @ [d]))), Inr None)"
    using convert_tool_call_chunk [OF entries_of_invariant [OF assms(2)]
        entries_of_accepts [OF assms(2,3)] ev(2)]
    by (simp add: entries_of_snoc)
  with l ev(1) show ?thesis
    by simp
qed

lemma step_text_delta:
  assumes "carries P l (TextDelta t)"
  shows "\<exists>r. resp_text r = JStr t \<and> resp_functionCalls r = [] \<and>
             oa_lines_loop P (l # rest) st =
               (case oa_lines_loop P rest st of (st2, out, fin) \<Rightarrow> (st2, r # out, fin))"
proof -
  from assms obtain ev where l: "startsWith l ''data: ''" "slice l 6 \<noteq> ''[DONE]''"
    and ev: "P (slice l 6) = Some ev" "is_text_chunk ev t"
    by (cases "P (slice l 6)") simp_all
  from convert_text_chunk [OF ev(2), of P st] obtain r where
    r: "convertFromOpenAIFormat P ev True True st = (st, Inr (Some r))"
       "resp_text r = JStr t" "resp_functionCalls r = []"
    by blast
  with l ev(1) show ?thesis
    by (intro exI [of _ r]) simp
qed

lemma step_skipped:
  assumes "carries P l Skipped"
  shows "oa_lines_loop P (l # rest) st = oa_lines_loop P rest st"
  using assms by auto

lemma lines_loop_items:
  assumes "list_all2 (carries P) lines items"
    and "well_formed ds" and "well_formed_from ds (tool_deltas items)"
  shows "\<exists>outs. oa_lines_loop P lines (accumulator_of (entries_of ds), index_map_of (entries_of ds)) =
           ((accumulator_of (entries_of (ds @ tool_deltas items)),
             index_map_of (entries_of (ds @ tool_deltas items))), outs, False) \<and>
           map (\<lambda>r. (resp_text r, resp_functionCalls r)) outs =
           map (\<lambda>t. (JStr t, [])) (text_deltas items)"
  using assms
proof (induction lines items arbitrary: ds rule: list_all2_induct)
  case Nil
  then show ?case
    by simp
next
  case (Cons l lines x items)
  show ?case
  proof (cases x)
    case (ToolDelta d)
    with Cons.prems have co: "continues ds d" and wf: "well_formed_from (ds @ [d]) (tool_deltas items)"
      by simp_all
    from Cons.prems(1) co have wf': "well_formed (ds @ [d])"
      by (simp add: well_formed_snoc)
    from Cons.hyps(1) ToolDelta have "carries P l (ToolDelta d)"
      by simp
    from step_tool_delta [OF this Cons.prems(1) co, of lines] Cons.IH [OF wf' wf] ToolDelta
    show ?thesis
      by (simp del: oa_lines_loop.simps)
  next
    case (TextDelta t)
    let ?st = "(accumulator_of (entries_of ds), index_map_of (entries_of ds))"
    from TextDelta Cons.hyps(1) step_text_delta [of P l t lines ?st]
    obtain r where r: "resp_text r = JStr t" "resp_functionCalls r = []"
      "oa_lines_loop P (l # lines) ?st =
         (case oa_lines_loop P lines ?st of (st2, out, fin) \<Rightarrow> (st2, r # out, fin))"
      by blast
    from Cons.IH [OF Cons.prems(1)] Cons.prems(2) TextDelta r show ?thesis
      by (auto simp del: oa_lines_loop.simps)
  next
    case Skipped
    with Cons.hyps(1) have "carries P l Skipped"
      by simp
    then have "oa_lines_loop P (l # lines) st = oa_lines_loop P lines st" for st
      by (rule step_skipped)
    with Cons.IH [OF Cons.prems(1)] Cons.prems(2) Skipped show ?thesis
      by (simp del: oa_lines_loop.simps)
  qed
qed

lemma accumulated_entry: "accumulated_call P (snd (accumulator_entry e)) = completed_call P e"
  by (simp add: accumulated_call_def accumulator_entry_def completed_call_def)

lemma done_line:
  "oa_lines_loop P (''data: [DONE]'' # rest) (accumulator_of es, index_map_of es) =
     ((accumulator_of es, index_map_of es),
      (if es = [] then [] else [tool_calls_response (map (completed_call P) es)]), True)"
  by (simp add: startsWith_def slice_def convertAccumulatedToolCallsToGemini_def accumulator_of_def
      accumulated_entry comp_def)

lemma done_line_iff: "(startsWith l ''data: '' \<and> slice l 6 = ''[DONE]'') = (l = ''data: [DONE]'')"
proof
  have len: "length ''data: '' = 6"
    by simp
  assume "startsWith l ''data: '' \<and> slice l 6 = ''[DONE]''"
  then have "take 6 l = ''data: ''" and "drop 6 l = ''[DONE]''"
    unfolding startsWith_def slice_def len by blast+
  then have "take 6 l @ drop 6 l = ''data: '' @ ''[DONE]''"
    by (simp only:)
  then show "l = ''data: [DONE]''"
    by simp
next
  assume "l = ''data: [DONE]''"
  then show "startsWith l ''data: '' \<and> slice l 6 = ''[DONE]''"
    by (simp add: startsWith_def slice_def)
qed

lemma carries_not_done: "carries P l x \<Longrightarrow> l \<noteq> ''data: [DONE]''"
  using done_line_iff [of l] by (cases x) auto

lemma lines_not_done: "list_all2 (carries P) lines items \<Longrightarrow> ''data: [DONE]'' \<notin> set lines"
  by (induction lines items rule: list_all2_induct) (auto dest: carries_not_done)

lemma no_done_no_calls:
  "''data: [DONE]'' \<notin> set ls \<Longrightarrow> oa_lines_loop P ls st = (st1, outs, fin) \<Longrightarrow>
   \<not> fin \<and> concat (map resp_functionCalls outs) = []"
proof (induction ls arbitrary: st st1 outs fin)
  case Nil
  then show ?case
    by simp
next
  case (Cons l ls)
  from Cons.prems(1) have nd: "\<not> (startsWith l ''data: '' \<and> slice l 6 = ''[DONE]'')"
    and rest: "''data: [DONE]'' \<notin> set ls"
    by (auto simp: done_line_iff)
  show ?case
  proof (cases "startsWith l ''data: ''")
    case False
    with Cons.prems(2) have "oa_lines_loop P ls st = (st1, outs, fin)"
      by simp
    from Cons.IH [OF rest this] show ?thesis .
  next
    case True
    with nd have d: "slice l 6 \<noteq> ''[DONE]''"
      by simp
    show ?thesis
    proof (cases "P (slice l 6)")
      case None
      with True d Cons.prems(2) have "oa_lines_loop P ls st = (st1, outs, fin)"
        by simp
      from Cons.IH [OF rest this] show ?thesis .
    next
      case (Some parsed)
      obtain st' res where c: "convertFromOpenAIFormat P parsed True True st = (st', res)"
        by (cases "convertFromOpenAIFormat P parsed True True st")
      show ?thesis
      proof (cases "\<exists>r. res = Inr (Some r)")
        case True
        then obtain r where r: "res = Inr (Some r)"
          by blast
        with c have e: "resp_functionCalls r = []"
          by (simp add: streaming_conversion_no_calls)
        obtain st2 out f where l: "oa_lines_loop P ls st' = (st2, out, f)"
          by (cases "oa_lines_loop P ls st'")
        from Cons.IH [OF rest l] e l c r Some \<open>startsWith l ''data: ''\<close> d Cons.prems(2)
        show ?thesis
          by auto
      next
        case False
        then have "oa_lines_loop P (l # ls) st = oa_lines_loop P ls st'"
          using c Some \<open>startsWith l ''data: ''\<close> d
          by (auto split: sum.splits option.splits)
        with Cons.prems(2) have "oa_lines_loop P ls st' = (st1, outs, fin)"
          by simp
        from Cons.IH [OF rest this] show ?thesis .
      qed
    qed
  qed
qed

lemma complete_lines_of_take:
  "\<forall>l \<in> set ls. CHR 0x0A \<notin> set l \<Longrightarrow> CHR 0x0A \<notin> set t \<Longrightarrow>
   \<exists>k. butlast (split_lines (take n (unlines ls @ t))) = take k ls"
proof (induction ls arbitrary: n)
  case Nil
  have "CHR 0x0A \<notin> set (take n t)"
    using Nil.prems(2) by (auto dest: in_set_takeD)
  then show ?case
    by (simp add: unlines_def split_lines_no_nl)
next
  case (Cons l ls)
  show ?case
  proof (cases "n \<le> length l")
    case True
    have "CHR 0x0A \<notin> set (take n l)"
      using Cons.prems(1) by (auto dest: in_set_takeD)
    with True have "butlast (split_lines (take n (unlines (l # ls) @ t))) = take 0 (l # ls)"
      by (simp add: unlines_def split_lines_no_nl)
    then show ?thesis
      by blast
  next
    case False
    from Cons.IH [of "n - length l - 1"] Cons.prems obtain k where
      k: "butlast (split_lines (take (n - length l - 1) (unlines ls @ t))) = take k ls"
      by auto
    from False have "take n (unlines (l # ls) @ t) =
        l @ CHR 0x0A # take (n - length l - 1) (unlines ls @ t)"
      by (simp add: unlines_def take_Cons')
    with Cons.prems(1) k have "butlast (split_lines (take n (unlines (l # ls) @ t))) = take (Suc k) (l # ls)"
      by (simp add: split_lines_line)
    then show ?thesis
      by blast
  qed
qed

lemma single_index_indices:
  "ds \<noteq> [] \<Longrightarrow> \<forall>d \<in> set ds. td_index d = i \<Longrightarrow> indices ds = [i]"
proof (induction ds rule: rev_induct)
  case Nil
  then show ?case
    by simp
next
  case (snoc d ds)
  show ?case
  proof (cases "ds = []")
    case True
    with snoc.prems show ?thesis
      by (simp add: indices_def)
  next
    case False
    then obtain e where "e \<in> set ds"
      by (cases ds) auto
    with snoc.prems have "td_index d \<in> td_index ` set ds"
      by (auto simp: image_iff)
    with snoc.IH [OF False] snoc.prems(2) show ?thesis
      by (simp add: indices_snoc)
  qed
qed

lemma single_index_entries:
  assumes "ds \<noteq> []" and "\<forall>d \<in> set ds. td_index d = i"
  shows "entries_of ds =
           [\<lparr>ce_index = i, ce_id = id_of i ds, ce_name = name_of i ds,
             ce_args = concat (map (\<lambda>d. opt_string (td_args d)) ds)\<rparr>]"
proof -
  from assms have "indices ds = [i]"
    by (rule single_index_indices)
  moreover have "deltas_of i ds = ds"
    using assms(2) by (simp add: deltas_of_def)
  moreover have "concat (List.map_filter td_args xs) = concat (map (\<lambda>d. opt_string (td_args d)) xs)"
    for xs :: "tool_delta list"
    by (induction xs) (auto simp: opt_string_def split: option.splits)
  ultimately show ?thesis
    by (simp add: entries_of_def args_of_def)
qed

text \<open>
  Streams framed with line feeds. Take a stream of lines, each a chunk with one tool-call
  delta, a chunk with text, or a line that the adapter skips, followed by the
  \<^verbatim>\<open>data: [DONE]\<close> line, every line ended by a line feed, where the first delta of every
  index carries a non-empty id of its own and the later deltas of the index carry that id
  or none. However the bytes are cut into reads, as long as the decoder makes this text
  of them, the adapter yields the text chunks in order, each without function calls, and
  then, at \<^verbatim>\<open>[DONE]\<close>, one response with one function call for each index, in the order in
  which the indices first appear, with the id that opened the index, the last non-empty
  name, and as arguments the parse of the joined fragments of the index (the empty object
  when there is no fragment or the parse fails); then it returns. With no tool-call delta
  there is no such response. When all deltas have the same index, this is exactly one
  function call, with the fragments of all the deltas joined. Whatever initial part of the
  text has been read while the \<^verbatim>\<open>[DONE]\<close> line is not complete, no response yielded so
  far has a function call.
\<close>

theorem lf_tool_call_stream:
  assumes "list_all2 (carries P) lines items"
    and "well_formed (tool_deltas items)"
    and "\<forall>l \<in> set lines. CHR 0x0A \<notin> set l"
    and "decoded_text D [] cs = unlines (lines @ [''data: [DONE]'']) @ rest"
    and "decoded_text D [] cs' = take n (unlines lines @ ''data: [DONE]'')"
  shows "snd (openai_generateContentStreamInternal P D (ok_response cs)) = (True, None)
       \<and> map (\<lambda>r. (resp_text r, resp_functionCalls r))
           (fst (openai_generateContentStreamInternal P D (ok_response cs))) =
         map (\<lambda>t. (JStr t, [])) (text_deltas items) @
         (if tool_deltas items = [] then []
          else [(JStr '''', map (completed_call P) (entries_of (tool_deltas items)))])
       \<and> (tool_deltas items \<noteq> [] \<and> (\<forall>d \<in> set (tool_deltas items). td_index d = i) \<longrightarrow>
            entries_of (tool_deltas items) =
              [\<lparr>ce_index = i, ce_id = id_of i (tool_deltas items),
                ce_name = name_of i (tool_deltas items),
                ce_args = concat (map (\<lambda>d. opt_string (td_args d)) (tool_deltas items))\<rparr>])
       \<and> concat (map resp_functionCalls
           (fst (openai_generateContentStreamInternal P D (ok_response cs')))) = []"
proof -
  let ?ds = "tool_deltas items"
  let ?st = "(accumulator_of (entries_of ?ds), index_map_of (entries_of ?ds))"
  have wf: "well_formed []"
    by (simp add: well_formed_def)
  from lines_loop_items [OF assms(1) wf] assms(2) obtain outs where
    outs: "oa_lines_loop P lines ([], []) = (?st, outs, False)"
      "map (\<lambda>r. (resp_text r, resp_functionCalls r)) outs = map (\<lambda>t. (JStr t, [])) (text_deltas items)"
    by (auto simp: well_formed_def accumulator_of_def index_map_of_def)
  have nl: "\<forall>l \<in> set (lines @ [''data: [DONE]'']). CHR 0x0A \<notin> set l"
    using assms(3) by simp
  have b: "butlast (split_lines (decoded_text D [] cs)) =
      lines @ ''data: [DONE]'' # butlast (split_lines rest)"
    using butlast_split_lines_unlines [OF nl, of rest] assms(4) by simp
  have loop: "oa_lines_loop P (butlast (split_lines (decoded_text D [] cs))) ([], []) =
      (?st, outs @ (if ?ds = [] then []
                   else [tool_calls_response (map (completed_call P) (entries_of ?ds))]), True)"
    unfolding b by (subst oa_lines_loop_append) (simp add: outs done_line del: oa_lines_loop.simps)
  have run: "openai_generateContentStreamInternal P D (ok_response cs) =
      (outs @ (if ?ds = [] then []
               else [tool_calls_response (map (completed_call P) (entries_of ?ds))]), True, None)"
    by (simp add: openai_generateContentStreamInternal_def ok_response_def oa_read_loop_lines loop)
  have "CHR 0x0A \<notin> set ''data: [DONE]''"
    by simp
  from complete_lines_of_take [OF assms(3) this, of n] obtain k where
    k: "butlast (split_lines (decoded_text D [] cs')) = take k lines"
    using assms(5) by auto
  have nd: "''data: [DONE]'' \<notin> set (take k lines)"
    using lines_not_done [OF assms(1)] by (auto dest: in_set_takeD)
  obtain st1 outs' fin where l': "oa_lines_loop P (take k lines) ([], []) = (st1, outs', fin)"
    by (cases "oa_lines_loop P (take k lines) ([], [])")
  from no_done_no_calls [OF nd l'] have "concat (map resp_functionCalls outs') = []"
    by simp
  then have before: "concat (map resp_functionCalls
      (fst (openai_generateContentStreamInternal P D (ok_response cs')))) = []"
    by (simp add: openai_generateContentStreamInternal_def ok_response_def oa_read_loop_lines k l')
  have single: "?ds \<noteq> [] \<and> (\<forall>d \<in> set ?ds. td_index d = i) \<longrightarrow>
      entries_of ?ds =
        [\<lparr>ce_index = i, ce_id = id_of i ?ds, ce_name = name_of i ?ds,
          ce_args = concat (map (\<lambda>d. opt_string (td_args d)) ?ds)\<rparr>]"
    using single_index_entries [of ?ds i] by blast
  from run outs(2) before single show ?thesis
    by (simp add: tool_calls_response_def)
qed

theorem lf_tool_call_stream_search:
  "snd (openai_generateContentStreamInternal json_read utf8_decode
          (ok_response [take 120 search_bytes, take 100 (drop 120 search_bytes),
                        drop 100 (drop 120 search_bytes)])) = (True, None)
   \<and> map (\<lambda>r. (resp_text r, resp_functionCalls r))
         (fst (openai_generateContentStreamInternal json_read utf8_decode
                 (ok_response [take 120 search_bytes, take 100 (drop 120 search_bytes),
                               drop 100 (drop 120 search_bytes)]))) =
       [(JStr '''', [\<lparr>fc_id = Some (JStr ''c1''), fc_name = Some (JStr ''search''),
                       fc_args = JObj [(''q'', JStr ''cats'')]\<rparr>])]
   \<and> concat (map resp_functionCalls
         (fst (openai_generateContentStreamInternal json_read utf8_decode
                 (ok_response [take 120 search_bytes, take 100 (drop 120 search_bytes)])))) = []"
proof -
  have items: "list_all2 (carries json_read) search_lines search_items"
    by code_simp
  have wf: "well_formed (tool_deltas search_items)"
    by code_simp
  have nl: "\<forall>l \<in> set search_lines. CHR 0x0A \<notin> set l"
    by code_simp
  have "decoded_text utf8_decode []
          [take 120 search_bytes, take 100 (drop 120 search_bytes),
           drop 100 (drop 120 search_bytes)] = search_bytes"
    by code_simp
  then have c: "decoded_text utf8_decode []
          [take 120 search_bytes, take 100 (drop 120 search_bytes),
           drop 100 (drop 120 search_bytes)] =
        unlines (search_lines @ [''data: [DONE]'']) @ [CHR 0x0A]"
    by (simp only: search_bytes_def)
  have c': "decoded_text utf8_decode []
              [take 120 search_bytes, take 100 (drop 120 search_bytes)] =
            take 220 (unlines search_lines @ ''data: [DONE]'')"
    by code_simp
  have calls: "map (completed_call json_read) (entries_of (tool_deltas search_items)) =
      [\<lparr>fc_id = Some (JStr ''c1''), fc_name = Some (JStr ''search''),
        fc_args = JObj [(''q'', JStr ''cats'')]\<rparr>]"
    by code_simp
  have some: "tool_deltas search_items \<noteq> []"
    by code_simp
  have none: "text_deltas search_items = []"
    by code_simp
  from lf_tool_call_stream [OF items wf nl c c', of 0] calls some none
  show ?thesis
    by simp
qed

subsection \<open>OpenAI-compatible stream: lines ended by a carriage return\<close>

text \<open>
  Claim C1. The adapter cuts the text at line feeds and compares what follows \<^verbatim>\<open>data: \<close>
  with \<^verbatim>\<open>[DONE]\<close> as it is, where the Azure adapter trims it first. On the stream of the
  search for cats with every line ended by a carriage return and a line feed, each chunk
  still parses and the call of index 0 is accumulated whole, but the terminator reads as
  \<^verbatim>\<open>[DONE]\<close> followed by a carriage return, is skipped as unreadable, and the accumulated
  call is never converted: the adapter yields no response at all and does not return at
  the terminator. The same lines ended by line feeds alone yield the one function call
  c1, search, \<^verbatim>\<open>{"q": "cats"}\<close>.
\<close>

theorem crlf_stream_loses_tool_call:
  "openai_generateContentStreamInternal json_read utf8_decode (ok_response [search_crlf_bytes]) =
     ([], False, None)
   \<and> oa_lines_loop json_read (butlast (split_lines search_crlf_bytes)) ([], []) =
       (([(JStr ''c1'', \<lparr>oa_id = JStr ''c1'', oa_name = JStr ''search'',
                          oa_arguments = search_arguments\<rparr>)],
         [(JNum 0, JStr ''c1'')]), [], False)
   \<and> openai_generateContentStreamInternal json_read utf8_decode (ok_response [search_bytes]) =
       ([\<lparr>resp_text = JStr '''', resp_finishReason = JStr ''tool_calls'',
          resp_promptTokenCount = JNum 0, resp_candidatesTokenCount = JNum 0,
          resp_totalTokenCount = JNum 0,
          resp_functionCalls =
            [\<lparr>fc_id = Some (JStr ''c1''), fc_name = Some (JStr ''search''),
              fc_args = JObj [(''q'', JStr ''cats'')]\<rparr>]\<rparr>], True, None)"
  by code_simp

end
